theory Spec2Isabelle
  imports Main
begin

section \<open>Values exchanged with the backend\<close>

text \<open>
  Inbound frames and HTTP bodies are JSON. A parsed value is one of the JSON kinds;
  \<open>JUndefined\<close> is what a member read of an absent property gives. The handlers
  never calculate with a number of a message and never compare one with another number:
  they print it. A number is therefore given by the string the runtime prints for it
  (\<open>2\<close>, \<open>0.5\<close>, \<open>1e+21\<close>), which is different for different numbers, the two zeros
  apart. An object is the list of its own properties.
\<close>

datatype jsval =
    JUndefined
  | JNull
  | JBool bool
  | JNum string
  | JStr string
  | JArr "jsval list"
  | JObj "(string \<times> jsval) list"

datatype exn = SyntaxError | TypeError

fun digit_char :: "nat \<Rightarrow> char" where
  "digit_char n = ''0123456789'' ! (n mod 10)"

fun string_of_nat :: "nat \<Rightarrow> string" where
  "string_of_nat n =
     (if n < 10 then [digit_char n] else string_of_nat (n div 10) @ [digit_char (n mod 10)])"

declare string_of_nat.simps [simp del]

fun join_comma :: "string list \<Rightarrow> string" where
  "join_comma [] = []"
| "join_comma [x] = x"
| "join_comma (x # y # zs) = x @ '','' @ join_comma (y # zs)"

text \<open>
  What a template literal \<open>`${v}`\<close> does with a parsed JSON value. Primitives print as
  themselves. An object is printed by its \<open>toString\<close>: a parsed object inherits the one
  that prints \<open>[object Object]\<close>, unless it has an own property of that name, which is a
  JSON value and not callable; then the conversion ends in a \<open>TypeError\<close>, whatever its
  \<open>valueOf\<close> is (the inherited one returns the object, an own one is not callable
  either). An array prints its elements joined by commas, from left to right, \<open>null\<close>
  and \<open>undefined\<close> elements as nothing, and throws where an element throws.
\<close>

fun js_string :: "jsval \<Rightarrow> exn + string"
  and js_elems :: "jsval list \<Rightarrow> exn + string list" where
  "js_string JUndefined = Inr ''undefined''"
| "js_string JNull = Inr ''null''"
| "js_string (JBool b) = Inr (if b then ''true'' else ''false'')"
| "js_string (JNum digits) = Inr digits"
| "js_string (JStr s) = Inr s"
| "js_string (JArr xs) =
     (case js_elems xs of Inl e \<Rightarrow> Inl e | Inr parts \<Rightarrow> Inr (join_comma parts))"
| "js_string (JObj ps) =
     (if ''toString'' \<in> set (map fst ps) then Inl TypeError else Inr ''[object Object]'')"
| "js_elems [] = Inr []"
| "js_elems (x # xs) =
     (case (if x = JUndefined \<or> x = JNull then Inr [] else js_string x) of
        Inl e \<Rightarrow> Inl e
      | Inr part \<Rightarrow> (case js_elems xs of Inl e \<Rightarrow> Inl e | Inr parts \<Rightarrow> Inr (part # parts)))"

text \<open>The values a template literal prints without throwing: every primitive, every
  object without an own \<open>toString\<close>, every array of such values.\<close>

fun printable :: "jsval \<Rightarrow> bool" where
  "printable (JObj ps) = (''toString'' \<notin> set (map fst ps))"
| "printable (JArr xs) = (\<forall>x \<in> set xs. printable x)"
| "printable v = True"

text \<open>
  \<open>v.k\<close> for the property names the message handler reads (\<open>type\<close>, \<open>level\<close>,
  \<open>message\<close>, \<open>stage\<close>, \<open>current\<close>, \<open>total\<close>, \<open>pdf_name\<close>, \<open>status\<close>, \<open>reason\<close>):
  an own property of an object, \<open>undefined\<close> on every other non-nullish value, and a
  \<open>TypeError\<close> on \<open>null\<close> and \<open>undefined\<close>.
\<close>

fun jsprop :: "jsval \<Rightarrow> string \<Rightarrow> jsval" where
  "jsprop (JObj ps) k = (case map_of ps k of Some v \<Rightarrow> v | None \<Rightarrow> JUndefined)"
| "jsprop v k = JUndefined"

definition member :: "jsval \<Rightarrow> string \<Rightarrow> exn + jsval" where
  "member v k = (if v = JNull \<or> v = JUndefined then Inl TypeError else Inr (jsprop v k))"

text \<open>The outcome of \<open>JSON.parse(event.data)\<close>: a \<open>SyntaxError\<close> or the parsed value.\<close>

datatype frame = Malformed | Parsed jsval

record bank =
  bank_id :: string
  bank_name :: string

text \<open>
  What \<open>await fetch(...)\<close> followed by \<open>await response.json()\<close> gives to each of the
  three callers: a rejection (network or parse failure), or the member of the body the
  caller reads (\<open>None\<close> when it is absent or \<open>null\<close>).
\<close>

datatype banks_response = BanksThrows | BanksData "bank list option"

datatype results_response = ResultsThrows | ResultsData "jsval list option"

text \<open>\<open>StartRejected m\<close>: fetch rejected with an error whose message is \<open>m\<close>;
  \<open>StartResponded ok\<close>: a response arrived, \<open>ok\<close> is \<open>response.ok\<close>.\<close>

datatype start_outcome = StartRejected string | StartResponded bool

section \<open>Component state and its environment\<close>

record log_entry =
  level :: jsval
  message :: jsval
  timestamp :: string

datatype http_method = GET | POST

record fetch_call =
  url :: string
  http :: http_method
  body :: "string option"

text \<open>The async function suspended at an \<open>await\<close>, with the arguments it closed over.\<close>

datatype continuation = BanksK nat | StartK | ResultsK

text \<open>The two closures handed to \<open>setTimeout\<close>.\<close>

datatype timer_cb = ReconnectCb | FetchBanksCb nat

type_synonym timer = "nat \<times> nat \<times> timer_cb"

text \<open>
  The first nine fields are the \<open>useState\<close> and \<open>useRef\<close> cells of \<open>App\<close>. The rest is
  the environment as far as the component drives it: the wall clock \<open>addLog\<close> reads, the
  \<open>WebSocket\<close> objects constructed so far (by URL; a handle is the index), every
  \<open>fetch\<close> call made, the async functions waiting for a response, the timers pending,
  and every \<open>setTimeout\<close> call made (a timer is its id, its delay in ms and its closure).
\<close>

record app =
  banks :: "bank list"
  selectedBank :: string
  isRunning :: bool
  logs :: "log_entry list"
  results :: "jsval list"
  showResults :: bool
  wsConnected :: bool
  wsRef :: "nat option"
  reconnectTimeoutRef :: "nat option"
  clock :: string
  ws_ctor_throws :: bool
  sockets :: "string list"
  requests :: "fetch_call list"
  awaiting :: "continuation list"
  timers :: "timer list"
  scheduled :: "timer list"

definition initial_state :: "bool \<Rightarrow> app" where
  "initial_state throws =
     \<lparr>banks = [], selectedBank = [], isRunning = False, logs = [], results = [],
      showResults = False, wsConnected = False, wsRef = None, reconnectTimeoutRef = None,
      clock = [], ws_ctor_throws = throws, sockets = [], requests = [], awaiting = [],
      timers = [], scheduled = []\<rparr>"

section \<open>Primitives\<close>

definition addLog :: "jsval \<Rightarrow> jsval \<Rightarrow> app \<Rightarrow> app" where
  "addLog lv msg s = s\<lparr>logs := logs s @ [\<lparr>level = lv, message = msg, timestamp = clock s\<rparr>]\<rparr>"

text \<open>\<open>setTimeout\<close> returns a fresh positive handle.\<close>

definition setTimeout :: "timer_cb \<Rightarrow> nat \<Rightarrow> app \<Rightarrow> nat \<times> app" where
  "setTimeout cb ms s =
     (let t = Suc (length (scheduled s))
      in (t, s\<lparr>timers := timers s @ [(t, ms, cb)], scheduled := scheduled s @ [(t, ms, cb)]\<rparr>))"

definition fetch :: "fetch_call \<Rightarrow> continuation \<Rightarrow> app \<Rightarrow> app" where
  "fetch c k s = s\<lparr>requests := requests s @ [c], awaiting := awaiting s @ [k]\<rparr>"

definition banks_call :: fetch_call where
  "banks_call = \<lparr>url = ''http://localhost:8000/api/banks'', http = GET, body = None\<rparr>"

definition results_call :: fetch_call where
  "results_call = \<lparr>url = ''http://localhost:8000/api/results'', http = GET, body = None\<rparr>"

definition start_call :: fetch_call where
  "start_call = \<lparr>url = ''http://localhost:8000/api/start'', http = POST, body = None\<rparr>"

text \<open>\<open>!ref.current\<close> for a ref that holds \<open>null\<close> or a timer handle.\<close>

fun falsy_ref :: "nat option \<Rightarrow> bool" where
  "falsy_ref None = True"
| "falsy_ref (Some t) = (t = 0)"

section \<open>fetchBanks\<close>

text \<open>\<open>fetchBanks(retryCount)\<close> up to its first \<open>await\<close>.\<close>

definition fetchBanks :: "nat \<Rightarrow> app \<Rightarrow> app" where
  "fetchBanks retryCount s = fetch banks_call (BanksK retryCount) s"

text \<open>The rest of \<open>fetchBanks(retryCount)\<close>, run when the response is there.\<close>

definition fetchBanks_resume :: "nat \<Rightarrow> banks_response \<Rightarrow> app \<Rightarrow> app" where
  "fetchBanks_resume retryCount r s =
     (case r of
        BanksData d \<Rightarrow>
          (case d of
             Some bs \<Rightarrow>
               if length bs > 0
               then addLog (JStr ''success'')
                      (JStr (''Loaded '' @ string_of_nat (length bs) @ '' bank(s)''))
                      (s\<lparr>banks := bs\<rparr>)
               else if retryCount < 3
               then snd (setTimeout (FetchBanksCb (retryCount + 1)) 2000 s)
               else addLog (JStr ''error'') (JStr ''No banks found in config'') s
           | None \<Rightarrow>
               if retryCount < 3
               then snd (setTimeout (FetchBanksCb (retryCount + 1)) 2000 s)
               else addLog (JStr ''error'') (JStr ''No banks found in config'') s)
      | BanksThrows \<Rightarrow>
          if retryCount < 3
          then snd (setTimeout (FetchBanksCb (retryCount + 1)) 2000
                 (addLog (JStr ''warning'')
                    (JStr (''Retrying to fetch banks... ('' @ string_of_nat (retryCount + 1) @ ''/3)''))
                    s))
          else addLog (JStr ''error'') (JStr ''Failed to fetch banks. Check backend.'') s)"

section \<open>fetchResults\<close>

definition fetchResults :: "app \<Rightarrow> app" where
  "fetchResults s = fetch results_call ResultsK s"

definition fetchResults_resume :: "results_response \<Rightarrow> app \<Rightarrow> app" where
  "fetchResults_resume r s =
     (case r of
        ResultsData d \<Rightarrow>
          addLog (JStr ''info'')
            (JStr (''Found '' @ string_of_nat (case d of Some rs \<Rightarrow> length rs | None \<Rightarrow> 0)
                   @ '' processed tenders''))
            (s\<lparr>results := (case d of Some rs \<Rightarrow> rs | None \<Rightarrow> []), showResults := True\<rparr>)
      | ResultsThrows \<Rightarrow> addLog (JStr ''error'') (JStr ''Failed to fetch results'') s)"

section \<open>connectWebSocket and the channel handlers\<close>

definition ws_url :: string where
  "ws_url = ''ws://localhost:8000/ws''"

text \<open>
  The body of \<open>connectWebSocket\<close>: construct the socket, install the four handlers
  (they are the functions below, the same for every socket), store the handle in
  \<open>wsRef\<close>. A throwing constructor lands in the \<open>catch\<close>.
\<close>

definition connectWebSocket :: "app \<Rightarrow> app" where
  "connectWebSocket s =
     (if ws_ctor_throws s then s\<lparr>wsConnected := False\<rparr>
      else s\<lparr>sockets := sockets s @ [ws_url], wsRef := Some (length (sockets s))\<rparr>)"

definition ws_onopen :: "app \<Rightarrow> app" where
  "ws_onopen s = addLog (JStr ''success'') (JStr ''Connected to server'') (s\<lparr>wsConnected := True\<rparr>)"

text \<open>
  The \<open>try\<close> block of \<open>ws.onmessage\<close>; \<open>Inl\<close> is an exception leaving it. The
  arguments of \<open>addLog\<close> are evaluated before the call, the parts of a template literal
  from left to right: where one of them throws, \<open>addLog\<close> is not called.
\<close>

definition onmessage_try :: "frame \<Rightarrow> app \<Rightarrow> exn + app" where
  "onmessage_try fr s =
     (case fr of
        Malformed \<Rightarrow> Inl SyntaxError
      | Parsed m \<Rightarrow>
          (case member m ''type'' of
             Inl e \<Rightarrow> Inl e
           | Inr ty \<Rightarrow>
               (if ty = JStr ''log''
                    then Inr (addLog (jsprop m ''level'') (jsprop m ''message'') s)
                    else if ty = JStr ''progress'' then
                      (case js_string (jsprop m ''stage'') of
                         Inl e \<Rightarrow> Inl e
                       | Inr stage_s \<Rightarrow>
                      (case js_string (jsprop m ''current'') of
                         Inl e \<Rightarrow> Inl e
                       | Inr current_s \<Rightarrow>
                      (case js_string (jsprop m ''total'') of
                         Inl e \<Rightarrow> Inl e
                       | Inr total_s \<Rightarrow>
                      (case js_string (jsprop m ''message'') of
                         Inl e \<Rightarrow> Inl e
                       | Inr message_s \<Rightarrow>
                           Inr (addLog (JStr ''progress'')
                                  (JStr (stage_s @ '': '' @ current_s @ ''/'' @ total_s @ '' - ''
                                         @ message_s))
                                  s)))))
                    else if ty = JStr ''pdf_status'' then
                      (case js_string (jsprop m ''pdf_name'') of
                         Inl e \<Rightarrow> Inl e
                       | Inr pdf_name \<Rightarrow>
                      (case js_string (jsprop m ''reason'') of
                         Inl e \<Rightarrow> Inl e
                       | Inr reason \<Rightarrow>
                           Inr (addLog (if jsprop m ''status'' = JStr ''filtered''
                                        then JStr ''success'' else JStr ''warning'')
                                  (JStr (pdf_name @ '': '' @ reason))
                                  s)))
                    else if ty = JStr ''completion'' then
                      Inr (fetchResults
                             (addLog (JStr ''success'') (JStr ''Process completed. Loading results.'')
                                (s\<lparr>isRunning := False\<rparr>)))
                    else Inr s)))"

text \<open>\<open>ws.onmessage\<close>: the \<open>try\<close> block under its empty \<open>catch\<close>.\<close>

definition ws_onmessage :: "frame \<Rightarrow> app \<Rightarrow> app" where
  "ws_onmessage fr s = (case onmessage_try fr s of Inl e \<Rightarrow> s | Inr s' \<Rightarrow> s')"

definition ws_onerror :: "app \<Rightarrow> app" where
  "ws_onerror s = s\<lparr>wsConnected := False\<rparr>"

definition ws_onclose :: "app \<Rightarrow> app" where
  "ws_onclose s =
     (let s1 = s\<lparr>wsConnected := False\<rparr>
      in if falsy_ref (reconnectTimeoutRef s1)
         then (let s2 = addLog (JStr ''warning'') (JStr ''Reconnecting to server...'') s1;
                   (t, s3) = setTimeout ReconnectCb 3000 s2
               in s3\<lparr>reconnectTimeoutRef := Some t\<rparr>)
         else s1)"

text \<open>The closure \<open>() => { reconnectTimeoutRef.current = null; connectWebSocket() }\<close>
  and the closure \<open>() => fetchBanks(retryCount + 1)\<close>.\<close>

fun run_callback :: "timer_cb \<Rightarrow> app \<Rightarrow> app" where
  "run_callback ReconnectCb s = connectWebSocket (s\<lparr>reconnectTimeoutRef := None\<rparr>)"
| "run_callback (FetchBanksCb n) s = fetchBanks n s"

section \<open>handleStart\<close>

text \<open>\<open>handleStart\<close> up to its \<open>await\<close>.\<close>

definition handleStart :: "app \<Rightarrow> app" where
  "handleStart s =
     (if selectedBank s = [] then s
      else if \<not> wsConnected s then s
      else fetch start_call StartK
             (addLog (JStr ''info'') (JStr (''Starting automation for '' @ selectedBank s @ ''...''))
                (s\<lparr>isRunning := True, logs := [], showResults := False, results := []\<rparr>)))"

text \<open>The \<open>try\<close> block after the \<open>await\<close>; \<open>Inl m\<close> is a thrown error with message \<open>m\<close>.\<close>

definition start_try :: "start_outcome \<Rightarrow> app \<Rightarrow> string + app" where
  "start_try out s =
     (case out of
        StartRejected m \<Rightarrow> Inl m
      | StartResponded ok \<Rightarrow>
          if \<not> ok then Inl ''Failed to start automation''
          else Inr (addLog (JStr ''success'') (JStr ''Automation started'') s))"

definition handleStart_resume :: "start_outcome \<Rightarrow> app \<Rightarrow> app" where
  "handleStart_resume out s =
     (case start_try out s of
        Inr s' \<Rightarrow> s'
      | Inl m \<Rightarrow> (addLog (JStr ''error'') (JStr (''Failed to start: '' @ m)) s)\<lparr>isRunning := False\<rparr>)"

section \<open>The view's controls\<close>

text \<open>The START button: \<open>disabled={isRunning || !selectedBank || !wsConnected}\<close>,
  \<open>onClick={handleStart}\<close>. A disabled button dispatches no click.\<close>

definition start_disabled :: "app \<Rightarrow> bool" where
  "start_disabled s = (isRunning s \<or> selectedBank s = [] \<or> \<not> wsConnected s)"

definition click_start :: "app \<Rightarrow> app" where
  "click_start s = (if start_disabled s then s else handleStart s)"

text \<open>The bank selector: disabled while running; its options are the empty
  \<open>Select\<close> entry and one entry per loaded bank, and \<open>onChange\<close> stores the chosen value.\<close>

definition select_bank :: "string \<Rightarrow> app \<Rightarrow> app" where
  "select_bank v s =
     (if isRunning s then s
      else if v = [] \<or> v \<in> set (map bank_id (banks s)) then s\<lparr>selectedBank := v\<rparr>
      else s)"

section \<open>The event loop\<close>

text \<open>
  One event is one callback run to completion: a tick of the wall clock, one of the
  four socket events, a timer firing, a response to one of the three requests, a click
  on START, a change of the selector. A timer fires only while it is pending, and a
  response is delivered only to a function that waits for it. The loop covers the
  mounted component; the cleanup run at unmount is not part of it.
\<close>

datatype event =
    Tick string
  | WsOpen
  | WsMessage frame
  | WsError
  | WsClose
  | TimerFire nat
  | BanksResponse nat banks_response
  | StartResponse start_outcome
  | ResultsResponse results_response
  | ClickStart
  | SelectBank string

definition fire :: "nat \<Rightarrow> app \<Rightarrow> app" where
  "fire t s =
     (case find (\<lambda>x. fst x = t) (timers s) of
        None \<Rightarrow> s
      | Some (_, _, cb) \<Rightarrow> run_callback cb (s\<lparr>timers := filter (\<lambda>x. fst x \<noteq> t) (timers s)\<rparr>))"

definition deliver :: "continuation \<Rightarrow> (app \<Rightarrow> app) \<Rightarrow> app \<Rightarrow> app" where
  "deliver k f s =
     (if k \<in> set (awaiting s) then f (s\<lparr>awaiting := remove1 k (awaiting s)\<rparr>) else s)"

fun step :: "event \<Rightarrow> app \<Rightarrow> app" where
  "step (Tick now) s = s\<lparr>clock := now\<rparr>"
| "step WsOpen s = ws_onopen s"
| "step (WsMessage fr) s = ws_onmessage fr s"
| "step WsError s = ws_onerror s"
| "step WsClose s = ws_onclose s"
| "step (TimerFire t) s = fire t s"
| "step (BanksResponse n r) s = deliver (BanksK n) (fetchBanks_resume n r) s"
| "step (StartResponse out) s = deliver StartK (handleStart_resume out) s"
| "step (ResultsResponse r) s = deliver ResultsK (fetchResults_resume r) s"
| "step ClickStart s = click_start s"
| "step (SelectBank v) s = select_bank v s"

fun run :: "event list \<Rightarrow> app \<Rightarrow> app" where
  "run [] s = s"
| "run (e # es) s = run es (step e s)"

text \<open>The two mount effects, in order: \<open>setTimeout(() => fetchBanks(), 1000)\<close>, then
  \<open>connectWebSocket()\<close>.\<close>

definition mount :: "app \<Rightarrow> app" where
  "mount s = connectWebSocket (snd (setTimeout (FetchBanksCb 0) 1000 s))"

definition booted :: "bool \<Rightarrow> app" where
  "booted throws = mount (initial_state throws)"

section \<open>Observations on timers, requests and the log\<close>

definition is_reconnect :: "timer \<Rightarrow> bool" where
  "is_reconnect x = (snd (snd x) = ReconnectCb)"

text \<open>The reconnect timers pending, and every reconnect timer ever scheduled.\<close>

definition reconnect_timers :: "app \<Rightarrow> timer list" where
  "reconnect_timers s = filter is_reconnect (timers s)"

definition reconnects_scheduled :: "app \<Rightarrow> timer list" where
  "reconnects_scheduled s = filter is_reconnect (scheduled s)"

definition reconnect_logs :: "app \<Rightarrow> log_entry list" where
  "reconnect_logs s = filter (\<lambda>e. message e = JStr ''Reconnecting to server...'') (logs s)"

text \<open>Handles of pending timers are distinct, positive and not beyond the last one
  handed out.\<close>

definition timers_ok :: "app \<Rightarrow> bool" where
  "timers_ok s =
     (distinct (map fst (timers s)) \<and>
      (\<forall>x \<in> set (timers s). 0 < fst x \<and> fst x \<le> length (scheduled s)))"

text \<open>The pending reconnect timers are exactly the one whose handle the ref holds.\<close>

definition single_flight :: "app \<Rightarrow> bool" where
  "single_flight s =
     (reconnect_timers s =
        (case reconnectTimeoutRef s of None \<Rightarrow> [] | Some t \<Rightarrow> [(t, 3000, ReconnectCb)]))"

text \<open>The channel closes, and the reconnect it scheduled fires.\<close>

definition close_cycle :: "app \<Rightarrow> app" where
  "close_cycle s =
     (let s1 = step WsClose s
      in case reconnectTimeoutRef s1 of None \<Rightarrow> s1 | Some t \<Rightarrow> step (TimerFire t) s1)"

text \<open>The bank loader's pending timers, its suspended activations, and the number of
  requests for the bank list made so far.\<close>

definition loader_timers :: "app \<Rightarrow> timer list" where
  "loader_timers s = filter (\<lambda>x. \<not> is_reconnect x) (timers s)"

definition loader_waits :: "app \<Rightarrow> continuation list" where
  "loader_waits s = filter (\<lambda>k. k \<noteq> StartK \<and> k \<noteq> ResultsK) (awaiting s)"

definition attempts :: "app \<Rightarrow> nat" where
  "attempts s = length (filter (\<lambda>c. c = banks_call) (requests s))"

text \<open>
  The loader is in one of three phases: a timer for attempt \<open>n\<close> is pending and \<open>n\<close>
  requests were made; attempt \<open>n\<close> waits for its response and \<open>n + 1\<close> requests were made;
  or it has stopped. No bank is stored before it stops.
\<close>

definition loader_ok :: "app \<Rightarrow> bool" where
  "loader_ok s =
     ((\<exists>n t d. n \<le> 3 \<and> loader_timers s = [(t, d, FetchBanksCb n)] \<and> loader_waits s = [] \<and>
              attempts s = n \<and> banks s = []) \<or>
      (\<exists>n. n \<le> 3 \<and> loader_timers s = [] \<and> loader_waits s = [BanksK n] \<and>
            attempts s = Suc n \<and> banks s = []) \<or>
      (loader_timers s = [] \<and> loader_waits s = [] \<and> attempts s \<le> 4))"

definition retry_delays_ok :: "app \<Rightarrow> bool" where
  "retry_delays_ok s =
     (\<forall>x \<in> set (scheduled s). \<forall>n. snd (snd x) = FetchBanksCb (Suc n) \<longrightarrow> fst (snd x) = 2000)"

definition selection_ok :: "app \<Rightarrow> bool" where
  "selection_ok s = (selectedBank s = [] \<or> selectedBank s \<in> set (map bank_id (banks s)))"

section \<open>The bank loader on its own\<close>

text \<open>A response that does not end the loading: a rejection, an absent list, an empty
  list.\<close>

fun unsuccessful :: "banks_response \<Rightarrow> bool" where
  "unsuccessful BanksThrows = True"
| "unsuccessful (BanksData None) = True"
| "unsuccessful (BanksData (Some bs)) = (bs = [])"

text \<open>
  One attempt with no other event in between: the loader's pending timer fires, the
  request goes out, and the endpoint answers it with \<open>r\<close>. \<open>bootstrap rs\<close> is the
  run in which the endpoint answers the successive attempts with \<open>rs\<close>.
\<close>

definition next_attempt :: "banks_response \<Rightarrow> app \<Rightarrow> app" where
  "next_attempt r s =
     (case find (\<lambda>x. \<not> is_reconnect x) (timers s) of
        None \<Rightarrow> s
      | Some (t, d, cb) \<Rightarrow>
          (case cb of
             FetchBanksCb n \<Rightarrow> step (BanksResponse n r) (step (TimerFire t) s)
           | ReconnectCb \<Rightarrow> s))"

definition bootstrap :: "banks_response list \<Rightarrow> app \<Rightarrow> app" where
  "bootstrap rs s = fold next_attempt rs s"

text \<open>The loader alone, about to make attempt \<open>k\<close>.\<close>

definition waiting :: "nat \<Rightarrow> app \<Rightarrow> bool" where
  "waiting k s =
     (timers s = [(Suc k, if k = 0 then 1000 else 2000, FetchBanksCb k)] \<and> awaiting s = [] \<and>
      length (scheduled s) = Suc k \<and> banks s = [] \<and> requests s = replicate k banks_call)"

section \<open>Concrete states\<close>

definition bank_a :: bank where
  "bank_a = \<lparr>bank_id = ''BANK_A'', bank_name = ''Bank A''\<rparr>"

text \<open>The banks are loaded at the first attempt, the channel opens, the operator picks
  \<open>BANK_A\<close> and clicks START.\<close>

definition started_state :: app where
  "started_state =
     run [TimerFire 1, BanksResponse 0 (BanksData (Some [bank_a])), WsOpen,
          SelectBank ''BANK_A'', ClickStart]
       (booted False)"

text \<open>The backend has accepted the start command.\<close>

definition running_state :: app where
  "running_state = step (StartResponse (StartResponded True)) started_state"

text \<open>A state written down directly: connected, with a selected id and no bank loaded.\<close>

definition ghost_state :: app where
  "ghost_state = (initial_state False)\<lparr>selectedBank := ''GHOST'', wsConnected := True\<rparr>"

definition doc1 :: "string \<Rightarrow> jsval" where
  "doc1 st = JObj [(''type'', JStr ''pdf_status''), (''pdf_name'', JStr ''doc1.pdf''),
                   (''status'', JStr st), (''reason'', JStr ''matched keyword'')]"

text \<open>A \<open>pdf_status\<close> frame whose \<open>pdf_name\<close> is the object \<open>{"toString": 1}\<close>.\<close>

definition unprintable_msg :: jsval where
  "unprintable_msg =
     JObj [(''type'', JStr ''pdf_status''), (''pdf_name'', JObj [(''toString'', JNum ''1'')]),
           (''status'', JStr ''filtered''), (''reason'', JStr ''r'')]"

text \<open>The banks are loaded, the channel is open, \<open>BANK_A\<close> is picked, START not yet
  clicked.\<close>

definition selected_state :: app where
  "selected_state =
     run [TimerFire 1, BanksResponse 0 (BanksData (Some [bank_a])), WsOpen,
          SelectBank ''BANK_A'']
       (booted False)"

definition completion_msg :: jsval where
  "completion_msg = JObj [(''type'', JStr ''completion'')]"

text \<open>The channel has opened; and then closed.\<close>

definition connected_state :: app where
  "connected_state = run [WsOpen] (booted False)"

definition closed_state :: app where
  "closed_state = run [WsOpen, WsClose] (booted False)"

definition empty3 :: "banks_response list" where
  "empty3 = [BanksData (Some []), BanksData (Some []), BanksData (Some [])]"

definition failing4 :: "banks_response list" where
  "failing4 = [BanksThrows, BanksData None, BanksData (Some []), BanksThrows]"

section \<open>Evaluating the concrete states\<close>

lemmas handler_defs =
  initial_state_def addLog_def setTimeout_def fetch_def fetchBanks_def fetchBanks_resume_def
  fetchResults_def fetchResults_resume_def connectWebSocket_def ws_onopen_def
  ws_onerror_def ws_onclose_def handleStart_def start_try_def
  handleStart_resume_def start_disabled_def click_start_def select_bank_def fire_def deliver_def
  mount_def booted_def member_def

text \<open>What a message can do to the state: nothing, one new log entry, or the
  completion sequence.\<close>

lemma onmessage_shape:
  "ws_onmessage fr s = s \<or>
   (\<exists>lv msg. ws_onmessage fr s = addLog lv msg s) \<or>
   ws_onmessage fr s =
     fetchResults (addLog (JStr ''success'') (JStr ''Process completed. Loading results.'')
                     (s\<lparr>isRunning := False\<rparr>))"
proof (cases fr)
  case Malformed
  then show ?thesis by (simp add: ws_onmessage_def onmessage_try_def)
next
  case (Parsed m)
  show ?thesis
  proof (cases "member m ''type''")
    case (Inl e)
    with Parsed show ?thesis by (simp add: ws_onmessage_def onmessage_try_def)
  next
    case (Inr ty)
    consider "ty = JStr ''log''" | "ty = JStr ''progress''" | "ty = JStr ''pdf_status''"
      | "ty = JStr ''completion''"
      | "ty \<noteq> JStr ''log''" "ty \<noteq> JStr ''progress''" "ty \<noteq> JStr ''pdf_status''"
        "ty \<noteq> JStr ''completion''"
      by blast
    then show ?thesis
    proof cases
      case 1
      with Parsed Inr show ?thesis by (auto simp: ws_onmessage_def onmessage_try_def)
    next
      case 2
      with Parsed Inr show ?thesis
        by (auto simp: ws_onmessage_def onmessage_try_def split: sum.splits)
    next
      case 3
      with Parsed Inr show ?thesis
        by (auto simp: ws_onmessage_def onmessage_try_def split: sum.splits)
    next
      case 4
      with Parsed Inr show ?thesis by (simp add: ws_onmessage_def onmessage_try_def)
    next
      case 5
      with Parsed Inr show ?thesis by (simp add: ws_onmessage_def onmessage_try_def)
    qed
  qed
qed

lemma onmessage_fields:
  "timers (ws_onmessage fr s) = timers s"
  "scheduled (ws_onmessage fr s) = scheduled s"
  "reconnectTimeoutRef (ws_onmessage fr s) = reconnectTimeoutRef s"
  "sockets (ws_onmessage fr s) = sockets s"
  "selectedBank (ws_onmessage fr s) = selectedBank s"
  "banks (ws_onmessage fr s) = banks s"
  "filter (\<lambda>k. k \<noteq> StartK \<and> k \<noteq> ResultsK) (awaiting (ws_onmessage fr s)) =
     filter (\<lambda>k. k \<noteq> StartK \<and> k \<noteq> ResultsK) (awaiting s)"
  "filter (\<lambda>c. c = banks_call) (requests (ws_onmessage fr s)) =
     filter (\<lambda>c. c = banks_call) (requests s)"
  using onmessage_shape [of fr s]
  by (auto simp: addLog_def fetchResults_def fetch_def results_call_def banks_call_def)

lemma started_state_eq:
  "started_state =
     \<lparr>banks = [bank_a], selectedBank = ''BANK_A'', isRunning = True,
      logs = [\<lparr>level = JStr ''info'', message = JStr ''Starting automation for BANK_A...'',
                timestamp = []\<rparr>],
      results = [], showResults = False, wsConnected = True, wsRef = Some 0,
      reconnectTimeoutRef = None, clock = [], ws_ctor_throws = False, sockets = [ws_url],
      requests = [banks_call, start_call], awaiting = [StartK], timers = [],
      scheduled = [(1, 1000, FetchBanksCb 0)]\<rparr>"
  by (simp add: started_state_def handler_defs bank_a_def string_of_nat.simps Let_def)

lemma running_state_eq:
  "running_state =
     \<lparr>banks = [bank_a], selectedBank = ''BANK_A'', isRunning = True,
      logs = [\<lparr>level = JStr ''info'', message = JStr ''Starting automation for BANK_A...'',
                timestamp = []\<rparr>,
              \<lparr>level = JStr ''success'', message = JStr ''Automation started'', timestamp = []\<rparr>],
      results = [], showResults = False, wsConnected = True, wsRef = Some 0,
      reconnectTimeoutRef = None, clock = [], ws_ctor_throws = False, sockets = [ws_url],
      requests = [banks_call, start_call], awaiting = [], timers = [],
      scheduled = [(1, 1000, FetchBanksCb 0)]\<rparr>"
  by (simp add: running_state_def started_state_eq deliver_def handleStart_resume_def
      start_try_def addLog_def)

lemma connected_state_eq:
  "connected_state =
     \<lparr>banks = [], selectedBank = [], isRunning = False,
      logs = [\<lparr>level = JStr ''success'', message = JStr ''Connected to server'', timestamp = []\<rparr>],
      results = [], showResults = False, wsConnected = True, wsRef = Some 0,
      reconnectTimeoutRef = None, clock = [], ws_ctor_throws = False, sockets = [ws_url],
      requests = [], awaiting = [], timers = [(1, 1000, FetchBanksCb 0)],
      scheduled = [(1, 1000, FetchBanksCb 0)]\<rparr>"
  by (simp add: connected_state_def handler_defs Let_def)

lemma closed_state_eq:
  "closed_state =
     \<lparr>banks = [], selectedBank = [], isRunning = False,
      logs = [\<lparr>level = JStr ''success'', message = JStr ''Connected to server'', timestamp = []\<rparr>,
              \<lparr>level = JStr ''warning'', message = JStr ''Reconnecting to server...'',
                timestamp = []\<rparr>],
      results = [], showResults = False, wsConnected = False, wsRef = Some 0,
      reconnectTimeoutRef = Some 2, clock = [], ws_ctor_throws = False, sockets = [ws_url],
      requests = [], awaiting = [],
      timers = [(1, 1000, FetchBanksCb 0), (2, 3000, ReconnectCb)],
      scheduled = [(1, 1000, FetchBanksCb 0), (2, 3000, ReconnectCb)]\<rparr>"
  by (simp add: closed_state_def handler_defs Let_def)

section \<open>Starting a run\<close>

text \<open>
  C1, as the specification states it, fails: \<open>handleStart\<close> has two guards, the empty
  selection and the missing connection, and none on \<open>isRunning\<close>. Called in a running
  state with a selection and a connection it empties the log, writes a new
  \<open>Starting\<close> entry and issues the start command again.
\<close>

theorem handleStart_running_counterexample:
  "isRunning running_state \<and>
   handleStart running_state \<noteq> running_state \<and>
   requests (handleStart running_state) = requests running_state @ [start_call] \<and>
   length (logs running_state) = 2 \<and> length (logs (handleStart running_state)) = 1"
  by (simp add: running_state_eq handleStart_def fetch_def addLog_def)

text \<open>
  C1, amended: \<open>handleStart\<close> returns at once, leaving the whole state (log, requests
  and run state included) as it was, when the selection is empty or the channel is not
  connected. The running state is refused one level up: the START button is disabled
  when \<open>isRunning\<close> holds, or the selection is empty, or the channel is not connected,
  and a click on it then changes nothing.
\<close>

theorem start_guards:
  "(selectedBank s = [] \<or> \<not> wsConnected s \<longrightarrow> handleStart s = s) \<and>
   (isRunning s \<or> selectedBank s = [] \<or> \<not> wsConnected s \<longrightarrow> step ClickStart s = s)"
  by (simp add: handleStart_def click_start_def start_disabled_def)

theorem start_guards_witness:
  "selectedBank (initial_state False) = [] \<and>
   handleStart (initial_state False) = initial_state False \<and>
   isRunning running_state \<and> step ClickStart running_state = running_state"
  using start_guards [of "initial_state False"] start_guards [of running_state]
  by (simp add: running_state_eq initial_state_def)

text \<open>
  C10: the start command is the same for every selection. For two non-empty
  selections in an otherwise equal connected state, \<open>handleStart\<close> issues the one
  request \<open>start_call\<close>, a POST to the fixed start URL with no body, and the two
  resulting states differ in the selection and in the text of the \<open>Starting\<close> log entry
  only.
\<close>

theorem start_request_independent_of_source:
  assumes "a \<noteq> []" and "b \<noteq> []" and "wsConnected s"
  shows "requests (handleStart (s\<lparr>selectedBank := a\<rparr>)) = requests s @ [start_call] \<and>
         requests (handleStart (s\<lparr>selectedBank := b\<rparr>)) = requests s @ [start_call] \<and>
         start_call = \<lparr>url = ''http://localhost:8000/api/start'', http = POST, body = None\<rparr> \<and>
         handleStart (s\<lparr>selectedBank := b\<rparr>) =
           (handleStart (s\<lparr>selectedBank := a\<rparr>))
             \<lparr>selectedBank := b,
              logs := [\<lparr>level = JStr ''info'',
                        message = JStr (''Starting automation for '' @ b @ ''...''),
                        timestamp = clock s\<rparr>]\<rparr>"
  using assms by (simp add: handleStart_def fetch_def addLog_def start_call_def)

theorem start_request_independent_of_source_witness:
  "''BANK_A'' \<noteq> [] \<and> ''BANK_B'' \<noteq> [] \<and> wsConnected ghost_state \<and>
   requests (handleStart (ghost_state\<lparr>selectedBank := ''BANK_A''\<rparr>)) = [start_call] \<and>
   requests (handleStart (ghost_state\<lparr>selectedBank := ''BANK_B''\<rparr>)) = [start_call] \<and>
   logs (handleStart (ghost_state\<lparr>selectedBank := ''BANK_B''\<rparr>)) =
     [\<lparr>level = JStr ''info'', message = JStr ''Starting automation for BANK_B...'',
       timestamp = []\<rparr>]"
  using start_request_independent_of_source [of "''BANK_A''" "''BANK_B''" ghost_state]
  by (simp add: ghost_state_def initial_state_def)

text \<open>
  C7: when the start command fails, by a rejected fetch (message \<open>m\<close>) or by a
  response that is not ok, the waiting \<open>handleStart\<close> sets \<open>isRunning\<close> to false and
  appends exactly one entry, of level \<open>error\<close>, whose text is \<open>Failed to start: \<close>
  followed by the reason; nothing else changes.
\<close>

theorem start_failure_reverts:
  assumes "StartK \<in> set (awaiting s)"
    and "out = StartRejected m \<or> out = StartResponded False"
  shows "step (StartResponse out) s =
           s\<lparr>isRunning := False,
             logs := logs s @ [\<lparr>level = JStr ''error'',
                                message = JStr (''Failed to start: '' @
                                  (case out of StartRejected r \<Rightarrow> r
                                   | StartResponded ok \<Rightarrow> ''Failed to start automation'')),
                                timestamp = clock s\<rparr>],
             awaiting := remove1 StartK (awaiting s)\<rparr>"
  using assms by (auto simp add: deliver_def handleStart_resume_def start_try_def addLog_def)

theorem start_failure_reverts_witness:
  "StartK \<in> set (awaiting started_state) \<and> isRunning started_state \<and>
   isRunning (step (StartResponse (StartResponded False)) started_state) = False \<and>
   logs (step (StartResponse (StartResponded False)) started_state) =
     [\<lparr>level = JStr ''info'', message = JStr ''Starting automation for BANK_A...'',
       timestamp = []\<rparr>,
      \<lparr>level = JStr ''error'', message = JStr ''Failed to start: Failed to start automation'',
       timestamp = []\<rparr>] \<and>
   logs (step (StartResponse (StartRejected ''Failed to fetch'')) started_state) =
     [\<lparr>level = JStr ''info'', message = JStr ''Starting automation for BANK_A...'',
       timestamp = []\<rparr>,
      \<lparr>level = JStr ''error'', message = JStr ''Failed to start: Failed to fetch'',
       timestamp = []\<rparr>]"
  using start_failure_reverts [of started_state "StartResponded False" "[]"]
    start_failure_reverts [of started_state "StartRejected ''Failed to fetch''" "''Failed to fetch''"]
  by (simp add: started_state_eq)

section \<open>Inbound messages\<close>

text \<open>
  C6: a message whose \<open>type\<close> is \<open>completion\<close>, in any state, sets \<open>isRunning\<close> to false
  (the run state is this one flag: completed is not running), appends exactly one
  entry, of level \<open>success\<close>, and calls \<open>fetchResults\<close> once: one request for the
  results is issued and one continuation waits for it. Nothing else changes.
\<close>

theorem completion_handled:
  assumes "member m ''type'' = Inr (JStr ''completion'')"
  shows "ws_onmessage (Parsed m) s =
           s\<lparr>isRunning := False,
             logs := logs s @ [\<lparr>level = JStr ''success'',
                                message = JStr ''Process completed. Loading results.'',
                                timestamp = clock s\<rparr>],
             requests := requests s @ [results_call],
             awaiting := awaiting s @ [ResultsK]\<rparr>"
  using assms by (simp add: ws_onmessage_def onmessage_try_def fetchResults_def fetch_def addLog_def)

theorem completion_handled_witness:
  "member completion_msg ''type'' = Inr (JStr ''completion'') \<and>
   isRunning running_state \<and>
   isRunning (ws_onmessage (Parsed completion_msg) running_state) = False \<and>
   requests (ws_onmessage (Parsed completion_msg) running_state)
     = [banks_call, start_call, results_call] \<and>
   awaiting (ws_onmessage (Parsed completion_msg) running_state) = [ResultsK] \<and>
   length (logs (ws_onmessage (Parsed completion_msg) running_state)) = 3 \<and>
   isRunning (ws_onmessage (Parsed completion_msg) (initial_state False)) = False"
  using completion_handled [of completion_msg running_state]
    completion_handled [of completion_msg "initial_state False"]
  by (simp add: member_def completion_msg_def running_state_eq initial_state_def)

text \<open>
  C8: a frame that does not parse, and a parsed value whose \<open>type\<close> is none of \<open>log\<close>,
  \<open>progress\<close>, \<open>pdf_status\<close>, \<open>completion\<close> (a value without a \<open>type\<close>, or \<open>null\<close>, where
  reading \<open>type\<close> throws, included), leave the state as it is: no entry, no change of
  run state or results, no request. The handler is a total function of the frame and
  the state; the exceptions of its \<open>try\<close> block end in its \<open>catch\<close>.
\<close>

theorem bad_frames_ignored:
  assumes "fr = Malformed \<or>
           (\<exists>m. fr = Parsed m \<and>
                member m ''type'' \<notin> Inr ` {JStr ''log'', JStr ''progress'', JStr ''pdf_status'',
                                            JStr ''completion''})"
  shows "ws_onmessage fr s = s"
  using assms by (auto simp add: ws_onmessage_def onmessage_try_def split: sum.splits)

theorem bad_frames_ignored_witness:
  "ws_onmessage Malformed running_state = running_state \<and>
   member (JObj [(''type'', JStr ''heartbeat'')]) ''type'' = Inr (JStr ''heartbeat'') \<and>
   ws_onmessage (Parsed (JObj [(''type'', JStr ''heartbeat'')])) running_state = running_state \<and>
   member JNull ''type'' = Inl TypeError \<and>
   ws_onmessage (Parsed JNull) running_state = running_state \<and>
   member (JObj [(''level'', JStr ''info'')]) ''type'' = Inr JUndefined \<and>
   ws_onmessage (Parsed (JObj [(''level'', JStr ''info'')])) running_state = running_state"
  using bad_frames_ignored [of Malformed running_state]
    bad_frames_ignored [of "Parsed (JObj [(''type'', JStr ''heartbeat'')])" running_state]
    bad_frames_ignored [of "Parsed JNull" running_state]
    bad_frames_ignored [of "Parsed (JObj [(''level'', JStr ''info'')])" running_state]
  by (simp add: member_def)

lemma js_string_printable:
  "(\<exists>a. js_string v = Inr a) = printable v"
  "(\<exists>parts. js_elems xs = Inr parts) = (\<forall>x \<in> set xs. printable x)"
proof (induction v and xs rule: js_string_js_elems.induct)
  case (6 xs)
  then show ?case by (auto split: sum.splits)
next
  case (9 x xs)
  then show ?case by (cases x) (auto split: sum.splits)
qed simp_all

text \<open>
  C9, as the specification states it, fails: the text of the entry is built by a
  template literal, and a \<open>pdf_name\<close> or \<open>reason\<close> that is an object with an own
  \<open>toString\<close> property makes it throw. The empty \<open>catch\<close> takes the error and no entry
  is appended.
\<close>

theorem pdf_status_unprintable_counterexample:
  "member unprintable_msg ''type'' = Inr (JStr ''pdf_status'') \<and>
   jsprop unprintable_msg ''status'' = JStr ''filtered'' \<and>
   ws_onmessage (Parsed unprintable_msg) running_state = running_state"
  by (simp add: unprintable_msg_def member_def ws_onmessage_def onmessage_try_def)

text \<open>
  C9, amended: a message whose \<open>type\<close> is \<open>pdf_status\<close> and whose \<open>pdf_name\<close> and
  \<open>reason\<close> members a template literal can print appends exactly one entry and changes
  nothing else. Its level is \<open>success\<close> when the \<open>status\<close> member is the string \<open>filtered\<close>
  and \<open>warning\<close> for every other value, an absent one included; its text is the printed
  \<open>pdf_name\<close>, a colon and a blank, and the printed \<open>reason\<close>. Every value prints except
  an object with an own \<open>toString\<close> property and an array that holds one; a string
  prints as itself and an absent member as \<open>undefined\<close>. A message with a member that
  does not print leaves the state as it is.
\<close>

theorem pdf_status_entry:
  assumes "member m ''type'' = Inr (JStr ''pdf_status'')"
  shows "ws_onmessage (Parsed m) s =
           (case js_string (jsprop m ''pdf_name'') of
              Inl e \<Rightarrow> s
            | Inr pdf_name \<Rightarrow>
                (case js_string (jsprop m ''reason'') of
                   Inl e \<Rightarrow> s
                 | Inr reason \<Rightarrow>
                     s\<lparr>logs := logs s @
                       [\<lparr>level = JStr (if jsprop m ''status'' = JStr ''filtered'' then ''success''
                                        else ''warning''),
                         message = JStr (pdf_name @ '': '' @ reason),
                         timestamp = clock s\<rparr>]\<rparr>)) \<and>
         ((\<exists>a. js_string v = Inr a) = printable v) \<and>
         js_string (JStr x) = Inr x \<and> js_string JUndefined = Inr ''undefined''"
  using assms
  by (simp add: ws_onmessage_def onmessage_try_def addLog_def js_string_printable
      split: sum.splits)

theorem pdf_status_entry_witness:
  "member (doc1 ''filtered'') ''type'' = Inr (JStr ''pdf_status'') \<and>
   logs (ws_onmessage (Parsed (doc1 ''filtered'')) (initial_state False)) =
     [\<lparr>level = JStr ''success'', message = JStr ''doc1.pdf: matched keyword'', timestamp = []\<rparr>] \<and>
   logs (ws_onmessage (Parsed (doc1 ''skipped'')) (initial_state False)) =
     [\<lparr>level = JStr ''warning'', message = JStr ''doc1.pdf: matched keyword'', timestamp = []\<rparr>] \<and>
   logs (ws_onmessage (Parsed (JObj [(''type'', JStr ''pdf_status'')])) (initial_state False)) =
     [\<lparr>level = JStr ''warning'', message = JStr ''undefined: undefined'', timestamp = []\<rparr>] \<and>
   logs (ws_onmessage (Parsed unprintable_msg) (initial_state False)) = []"
  using pdf_status_entry [of "doc1 ''filtered''" "initial_state False"]
    pdf_status_entry [of "doc1 ''skipped''" "initial_state False"]
    pdf_status_entry [of "JObj [(''type'', JStr ''pdf_status'')]" "initial_state False"]
    pdf_status_entry [of unprintable_msg "initial_state False"]
  by (simp add: member_def doc1_def unprintable_msg_def initial_state_def)

section \<open>Pending timers\<close>

lemma filter_other_ids:
  "t \<notin> fst ` set ts \<Longrightarrow> filter (\<lambda>x. fst x \<noteq> t) ts = ts"
  by (induction ts) auto

lemma find_by_id:
  "distinct (map fst ts) \<Longrightarrow> (t, d, cb) \<in> set ts \<Longrightarrow> find (\<lambda>x. fst x = t) ts = Some (t, d, cb)"
  by (induction ts) (auto simp: rev_image_eqI)

lemma find_by_id_Some:
  "find (\<lambda>x. fst x = t) ts = Some (t', d, cb) \<Longrightarrow> t' = t \<and> (t, d, cb) \<in> set ts"
  by (induction ts) (auto split: if_splits)

lemma filter_drop_id:
  "distinct (map fst ts) \<Longrightarrow> (t, d, cb) \<in> set ts \<Longrightarrow>
   filter Q (filter (\<lambda>x. fst x \<noteq> t) ts) =
     (if Q (t, d, cb) then remove1 (t, d, cb) (filter Q ts) else filter Q ts)"
proof (induction ts)
  case Nil
  then show ?case by simp
next
  case (Cons x ts)
  show ?case
  proof (cases "x = (t, d, cb)")
    case True
    with Cons.prems have "t \<notin> fst ` set ts" by auto
    then have "filter (\<lambda>x. fst x \<noteq> t) ts = ts" by (rule filter_other_ids)
    with True show ?thesis by simp
  next
    case False
    with Cons.prems have mem: "(t, d, cb) \<in> set ts" and dis: "distinct (map fst ts)"
      and ne: "fst x \<noteq> t" by (auto simp: rev_image_eqI)
    from Cons.IH [OF dis mem] ne False show ?thesis by auto
  qed
qed

lemma timers_ok_setTimeout:
  "timers_ok s \<Longrightarrow> timers_ok (snd (setTimeout cb ms s))"
  by (fastforce simp: timers_ok_def setTimeout_def Let_def)

lemma timers_ok_fields:
  "timers s' = timers s \<Longrightarrow> scheduled s' = scheduled s \<Longrightarrow> timers_ok s' = timers_ok s"
  by (simp add: timers_ok_def)

lemma timers_ok_filter:
  "timers_ok s \<Longrightarrow> timers_ok (s\<lparr>timers := filter P (timers s)\<rparr>)"
  by (auto simp: timers_ok_def distinct_map_filter)

lemma run_callback_timers:
  "timers (run_callback cb s) = timers s \<and> scheduled (run_callback cb s) = scheduled s"
  by (cases cb) (simp_all add: connectWebSocket_def fetchBanks_def fetch_def)

lemma timers_ok_fire: "timers_ok s \<Longrightarrow> timers_ok (fire t s)"
proof -
  assume ok: "timers_ok s"
  show ?thesis
  proof (cases "find (\<lambda>x. fst x = t) (timers s)")
    case None
    with ok show ?thesis by (simp add: fire_def)
  next
    case (Some x)
    obtain t' d cb where x: "x = (t', d, cb)" by (cases x)
    let ?s1 = "s\<lparr>timers := filter (\<lambda>x. fst x \<noteq> t) (timers s)\<rparr>"
    have "timers_ok ?s1" using ok by (rule timers_ok_filter)
    moreover have "timers_ok (run_callback cb ?s1) = timers_ok ?s1"
      by (rule timers_ok_fields) (simp_all add: run_callback_timers)
    ultimately show ?thesis using Some x by (simp add: fire_def)
  qed
qed

lemma timers_ok_resume: "timers_ok s \<Longrightarrow> timers_ok (fetchBanks_resume n r s)"
  by (auto simp: fetchBanks_resume_def timers_ok_def setTimeout_def addLog_def Let_def
      split: banks_response.splits option.splits)

lemma timers_ok_onclose: "timers_ok s \<Longrightarrow> timers_ok (ws_onclose s)"
  by (auto simp: ws_onclose_def timers_ok_def setTimeout_def addLog_def Let_def)

lemma timers_ok_step: "timers_ok s \<Longrightarrow> timers_ok (step e s)"
proof (cases e)
  case (TimerFire t)
  assume "timers_ok s"
  with TimerFire show ?thesis by (simp add: timers_ok_fire)
next
  case (BanksResponse n r)
  assume ok: "timers_ok s"
  then have "timers_ok (s\<lparr>awaiting := remove1 (BanksK n) (awaiting s)\<rparr>)"
    by (simp add: timers_ok_def)
  then show ?thesis using ok BanksResponse by (simp add: deliver_def timers_ok_resume)
next
  case WsClose
  assume "timers_ok s"
  with WsClose show ?thesis by (simp add: timers_ok_onclose)
next
  case (WsMessage fr)
  assume "timers_ok s"
  moreover have "timers_ok (ws_onmessage fr s) = timers_ok s"
    by (rule timers_ok_fields) (simp_all add: onmessage_fields)
  ultimately show ?thesis using WsMessage by simp
qed (simp_all add: timers_ok_def handler_defs split: sum.splits start_outcome.splits
      results_response.splits)

lemma timers_ok_booted: "timers_ok (booted b)"
  by (simp add: timers_ok_def handler_defs Let_def)

lemma timers_ok_run: "timers_ok s \<Longrightarrow> timers_ok (run evs s)"
  by (induction evs arbitrary: s) (simp_all add: timers_ok_step)

section \<open>Reconnection\<close>

lemma single_flight_fields:
  "timers s' = timers s \<Longrightarrow> reconnectTimeoutRef s' = reconnectTimeoutRef s \<Longrightarrow>
   single_flight s' = single_flight s"
  by (simp add: single_flight_def reconnect_timers_def)

lemma single_flight_resume: "single_flight s \<Longrightarrow> single_flight (fetchBanks_resume n r s)"
  by (auto simp: fetchBanks_resume_def single_flight_def reconnect_timers_def is_reconnect_def
      setTimeout_def addLog_def Let_def split: banks_response.splits option.splits)

lemma ref_positive:
  assumes "timers_ok s" and "single_flight s" and "reconnectTimeoutRef s = Some t"
  shows "0 < t"
proof -
  from assms(2,3) have "(t, 3000, ReconnectCb) \<in> set (filter is_reconnect (timers s))"
    by (simp add: single_flight_def reconnect_timers_def)
  then have "(t, 3000, ReconnectCb) \<in> set (timers s)" by simp
  with assms(1) show ?thesis by (auto simp: timers_ok_def)
qed

lemma onclose_pending:
  assumes "timers_ok s" and "single_flight s" and "reconnectTimeoutRef s = Some t"
  shows "ws_onclose s = s\<lparr>wsConnected := False\<rparr>"
  using ref_positive [OF assms] assms(3) by (simp add: ws_onclose_def)

lemma onclose_idle:
  assumes "reconnectTimeoutRef s = None"
  shows "ws_onclose s =
           s\<lparr>wsConnected := False,
             logs := logs s @ [\<lparr>level = JStr ''warning'', message = JStr ''Reconnecting to server...'',
                                timestamp = clock s\<rparr>],
             reconnectTimeoutRef := Some (Suc (length (scheduled s))),
             timers := timers s @ [(Suc (length (scheduled s)), 3000, ReconnectCb)],
             scheduled := scheduled s @ [(Suc (length (scheduled s)), 3000, ReconnectCb)]\<rparr>"
  using assms by (simp add: ws_onclose_def setTimeout_def addLog_def Let_def)

lemma single_flight_onclose:
  assumes "timers_ok s" and "single_flight s"
  shows "single_flight (ws_onclose s)"
proof (cases "reconnectTimeoutRef s")
  case None
  with assms(2) show ?thesis
    by (simp add: onclose_idle single_flight_def reconnect_timers_def is_reconnect_def)
next
  case (Some t)
  from onclose_pending [OF assms Some] assms(2) show ?thesis
    by (simp add: single_flight_def reconnect_timers_def)
qed

lemma fire_reconnect:
  assumes "timers_ok s" and "single_flight s" and "reconnectTimeoutRef s = Some t"
  shows "fire t s =
           connectWebSocket (s\<lparr>timers := filter (\<lambda>x. fst x \<noteq> t) (timers s),
                                reconnectTimeoutRef := None\<rparr>)"
    and "reconnect_timers (fire t s) = []"
proof -
  from assms(2,3) have "(t, 3000, ReconnectCb) \<in> set (filter is_reconnect (timers s))"
    by (simp add: single_flight_def reconnect_timers_def)
  then have mem: "(t, 3000, ReconnectCb) \<in> set (timers s)" by simp
  from assms(1) have dis: "distinct (map fst (timers s))" by (simp add: timers_ok_def)
  from find_by_id [OF dis mem] show eq: "fire t s =
           connectWebSocket (s\<lparr>timers := filter (\<lambda>x. fst x \<noteq> t) (timers s),
                                reconnectTimeoutRef := None\<rparr>)"
    by (simp add: fire_def)
  have "filter is_reconnect (filter (\<lambda>x. fst x \<noteq> t) (timers s)) =
          remove1 (t, 3000, ReconnectCb) (filter is_reconnect (timers s))"
    using filter_drop_id [OF dis mem, of is_reconnect] by (simp add: is_reconnect_def)
  also have "\<dots> = []" using assms(2,3) by (simp add: single_flight_def reconnect_timers_def)
  finally show "reconnect_timers (fire t s) = []"
    by (simp add: eq reconnect_timers_def connectWebSocket_def)
qed

lemma single_flight_fire:
  assumes "timers_ok s" and "single_flight s"
  shows "single_flight (fire t s)"
proof (cases "find (\<lambda>x. fst x = t) (timers s)")
  case None
  with assms(2) show ?thesis by (simp add: fire_def)
next
  case (Some x)
  obtain t' d cb where x: "x = (t', d, cb)" by (cases x)
  from Some x have mem: "(t, d, cb) \<in> set (timers s)" and t': "t' = t"
    using find_by_id_Some by fastforce+
  from assms(1) have dis: "distinct (map fst (timers s))" by (simp add: timers_ok_def)
  show ?thesis
  proof (cases cb)
    case ReconnectCb
    with mem have "(t, d, ReconnectCb) \<in> set (reconnect_timers s)"
      by (simp add: reconnect_timers_def is_reconnect_def)
    with assms(2) have ref: "reconnectTimeoutRef s = Some t"
      by (auto simp: single_flight_def split: option.splits)
    from fire_reconnect [OF assms ref] show ?thesis
      by (simp add: single_flight_def connectWebSocket_def)
  next
    case (FetchBanksCb n)
    have "filter is_reconnect (filter (\<lambda>x. fst x \<noteq> t) (timers s)) = filter is_reconnect (timers s)"
      using filter_drop_id [OF dis mem, of is_reconnect] FetchBanksCb by (simp add: is_reconnect_def)
    with assms(2) Some x FetchBanksCb show ?thesis
      by (simp add: fire_def single_flight_def reconnect_timers_def fetchBanks_def fetch_def)
  qed
qed

lemma single_flight_step:
  assumes "timers_ok s" and "single_flight s"
  shows "single_flight (step e s)"
proof (cases e)
  case (TimerFire t)
  with assms show ?thesis by (simp add: single_flight_fire)
next
  case (BanksResponse n r)
  from assms(2) have "single_flight (s\<lparr>awaiting := remove1 (BanksK n) (awaiting s)\<rparr>)"
    by (simp add: single_flight_def reconnect_timers_def)
  then show ?thesis using assms(2) BanksResponse by (simp add: deliver_def single_flight_resume)
next
  case WsClose
  with assms show ?thesis by (simp add: single_flight_onclose)
next
  case (WsMessage fr)
  have "single_flight (ws_onmessage fr s) = single_flight s"
    by (rule single_flight_fields) (simp_all add: onmessage_fields)
  with assms(2) WsMessage show ?thesis by simp
qed (use assms(2) in \<open>simp_all add: single_flight_def reconnect_timers_def handler_defs
      split: sum.splits start_outcome.splits results_response.splits\<close>)

lemma single_flight_run:
  "timers_ok s \<Longrightarrow> single_flight s \<Longrightarrow> single_flight (run evs s)"
  by (induction evs arbitrary: s) (simp_all add: single_flight_step timers_ok_step)

lemma single_flight_booted: "single_flight (booted b)"
  by (simp add: single_flight_def reconnect_timers_def is_reconnect_def handler_defs Let_def)

lemma close_cycle_idle:
  assumes "timers_ok s" and "single_flight s" and "reconnectTimeoutRef s = None"
  shows "reconnectTimeoutRef (close_cycle s) = None"
    and "reconnects_scheduled (close_cycle s) =
           reconnects_scheduled s @ [(Suc (length (scheduled s)), 3000, ReconnectCb)]"
    and "reconnect_logs (close_cycle s) =
           reconnect_logs s @ [\<lparr>level = JStr ''warning'', message = JStr ''Reconnecting to server...'',
                                timestamp = clock s\<rparr>]"
proof -
  let ?t = "Suc (length (scheduled s))"
  let ?s1 = "ws_onclose s"
  have ok1: "timers_ok ?s1" using assms(1) by (rule timers_ok_onclose)
  have sf1: "single_flight ?s1" using assms(1,2) by (rule single_flight_onclose)
  have ref1: "reconnectTimeoutRef ?s1 = Some ?t" using assms(3) by (simp add: onclose_idle)
  have cc: "close_cycle s = fire ?t ?s1" using ref1 by (simp add: close_cycle_def Let_def)
  note f = fire_reconnect(1) [OF ok1 sf1 ref1]
  have sch: "scheduled (close_cycle s) = scheduled ?s1"
    and lg: "logs (close_cycle s) = logs ?s1"
    by (simp_all add: cc f connectWebSocket_def)
  show "reconnectTimeoutRef (close_cycle s) = None"
    by (simp add: cc f connectWebSocket_def)
  show "reconnects_scheduled (close_cycle s) =
           reconnects_scheduled s @ [(Suc (length (scheduled s)), 3000, ReconnectCb)]"
    using assms(3) by (simp add: reconnects_scheduled_def sch onclose_idle is_reconnect_def)
  show "reconnect_logs (close_cycle s) =
           reconnect_logs s @ [\<lparr>level = JStr ''warning'', message = JStr ''Reconnecting to server...'',
                                timestamp = clock s\<rparr>]"
    using assms(3) by (simp add: reconnect_logs_def lg onclose_idle)
qed

lemma close_cycle_inv:
  assumes "timers_ok s" and "single_flight s"
  shows "timers_ok (close_cycle s)" and "single_flight (close_cycle s)"
proof -
  have c: "close_cycle s = run (WsClose # (case reconnectTimeoutRef (ws_onclose s) of None \<Rightarrow> []
              | Some t \<Rightarrow> [TimerFire t])) s"
    by (simp add: close_cycle_def Let_def split: option.splits)
  show "timers_ok (close_cycle s)" unfolding c using assms(1) by (rule timers_ok_run)
  show "single_flight (close_cycle s)" unfolding c using assms by (rule single_flight_run)
qed

lemma close_cycles_count:
  assumes "timers_ok s" and "single_flight s" and "reconnectTimeoutRef s = None"
  shows "timers_ok ((close_cycle ^^ n) s) \<and> single_flight ((close_cycle ^^ n) s) \<and>
         reconnectTimeoutRef ((close_cycle ^^ n) s) = None \<and>
         length (reconnects_scheduled ((close_cycle ^^ n) s)) = length (reconnects_scheduled s) + n \<and>
         length (reconnect_logs ((close_cycle ^^ n) s)) = length (reconnect_logs s) + n"
proof (induction n)
  case 0
  with assms show ?case by simp
next
  case (Suc n)
  let ?s = "(close_cycle ^^ n) s"
  from Suc have ok: "timers_ok ?s" and sf: "single_flight ?s" and nn: "reconnectTimeoutRef ?s = None"
    by simp_all
  from close_cycle_inv [OF ok sf] close_cycle_idle [OF ok sf nn] Suc show ?case by simp
qed

lemma onclose_twice:
  assumes "reconnectTimeoutRef s = None"
  shows "ws_onclose (ws_onclose s) = ws_onclose s"
proof -
  have "reconnectTimeoutRef (ws_onclose s) = Some (Suc (length (scheduled s)))"
    and "wsConnected (ws_onclose s) = False"
    using assms by (simp_all add: onclose_idle)
  then show ?thesis by (simp add: ws_onclose_def [of "ws_onclose s"])
qed

lemma repeated_close:
  assumes "reconnectTimeoutRef s = None"
  shows "run (replicate n WsClose) (ws_onclose s) = ws_onclose s"
  by (induction n) (simp_all add: onclose_twice [OF assms])

text \<open>
  C3: in every state the event loop reaches after mounting, at most one reconnect
  timer is pending, and one is pending exactly when the ref holds a token. A close
  that arrives while the token is held only clears \<open>wsConnected\<close>: it schedules
  nothing and logs nothing. When the timer of the token fires, the token is cleared
  and no reconnect timer is pending. Starting with no token held, \<open>n\<close> rounds of a
  close followed by the firing of the reconnect it scheduled schedule exactly \<open>n\<close>
  reconnects and append exactly \<open>n\<close> \<open>Reconnecting\<close> entries; closes that pile up
  before the timer fires count as the first one.
\<close>

theorem single_flight_reconnection:
  assumes "s = run evs (booted b)"
  shows "length (reconnect_timers s) \<le> 1 \<and>
         (reconnect_timers s = [] \<longleftrightarrow> reconnectTimeoutRef s = None) \<and>
         (reconnectTimeoutRef s \<noteq> None \<longrightarrow> step WsClose s = s\<lparr>wsConnected := False\<rparr>) \<and>
         (\<forall>t. reconnectTimeoutRef s = Some t \<longrightarrow>
              reconnectTimeoutRef (step (TimerFire t) s) = None \<and>
              reconnect_timers (step (TimerFire t) s) = []) \<and>
         (reconnectTimeoutRef s = None \<longrightarrow>
              length (reconnects_scheduled ((close_cycle ^^ n) s)) = length (reconnects_scheduled s) + n \<and>
              length (reconnect_logs ((close_cycle ^^ n) s)) = length (reconnect_logs s) + n \<and>
              length (reconnects_scheduled (step WsClose s)) = length (reconnects_scheduled s) + 1 \<and>
              run (replicate n WsClose) (step WsClose s) = step WsClose s)"
proof -
  have ok: "timers_ok s" unfolding assms using timers_ok_booted by (rule timers_ok_run)
  have sf: "single_flight s" unfolding assms
    using timers_ok_booted single_flight_booted by (rule single_flight_run)
  have a: "length (reconnect_timers s) \<le> 1"
    using sf by (simp add: single_flight_def split: option.splits)
  have b: "reconnect_timers s = [] \<longleftrightarrow> reconnectTimeoutRef s = None"
    using sf by (simp add: single_flight_def split: option.splits)
  have c: "reconnectTimeoutRef s \<noteq> None \<longrightarrow> step WsClose s = s\<lparr>wsConnected := False\<rparr>"
    using onclose_pending [OF ok sf] by auto
  have d: "\<forall>t. reconnectTimeoutRef s = Some t \<longrightarrow>
              reconnectTimeoutRef (step (TimerFire t) s) = None \<and>
              reconnect_timers (step (TimerFire t) s) = []"
    using fire_reconnect [OF ok sf] by (simp add: connectWebSocket_def)
  have e: "reconnectTimeoutRef s = None \<longrightarrow>
              length (reconnects_scheduled ((close_cycle ^^ n) s)) = length (reconnects_scheduled s) + n \<and>
              length (reconnect_logs ((close_cycle ^^ n) s)) = length (reconnect_logs s) + n \<and>
              length (reconnects_scheduled (step WsClose s)) = length (reconnects_scheduled s) + 1 \<and>
              run (replicate n WsClose) (step WsClose s) = step WsClose s"
  proof
    assume idle: "reconnectTimeoutRef s = None"
    from close_cycles_count [OF ok sf idle, of n] repeated_close [OF idle, of n]
    show "length (reconnects_scheduled ((close_cycle ^^ n) s)) = length (reconnects_scheduled s) + n \<and>
              length (reconnect_logs ((close_cycle ^^ n) s)) = length (reconnect_logs s) + n \<and>
              length (reconnects_scheduled (step WsClose s)) = length (reconnects_scheduled s) + 1 \<and>
              run (replicate n WsClose) (step WsClose s) = step WsClose s"
      by (simp add: onclose_idle [OF idle] reconnects_scheduled_def is_reconnect_def)
  qed
  from a b c d e show ?thesis by blast
qed


theorem single_flight_reconnection_witness:
  "closed_state = run [WsOpen, WsClose] (booted False) \<and>
   length (reconnect_timers closed_state) \<le> 1 \<and>
   reconnectTimeoutRef closed_state = Some 2 \<and>
   step WsClose closed_state = closed_state\<lparr>wsConnected := False\<rparr> \<and>
   reconnectTimeoutRef (step (TimerFire 2) closed_state) = None \<and>
   reconnect_timers (step (TimerFire 2) closed_state) = [] \<and>
   connected_state = run [WsOpen] (booted False) \<and>
   reconnectTimeoutRef connected_state = None \<and>
   length (reconnects_scheduled ((close_cycle ^^ 3) connected_state)) = 3 \<and>
   length (reconnect_logs ((close_cycle ^^ 3) connected_state)) = 3 \<and>
   length (reconnects_scheduled (step WsClose connected_state)) = 1 \<and>
   run (replicate 3 WsClose) (step WsClose connected_state) = step WsClose connected_state"
proof -
  have h1: "closed_state = run [WsOpen, WsClose] (booted False)"
    by (simp add: closed_state_def)
  have h2: "connected_state = run [WsOpen] (booted False)"
    by (simp add: connected_state_def)
  have r1: "reconnectTimeoutRef closed_state = Some 2"
    and r2: "reconnectTimeoutRef connected_state = None"
    and z: "reconnects_scheduled connected_state = []" "reconnect_logs connected_state = []"
    by (simp_all add: closed_state_eq connected_state_eq reconnects_scheduled_def
        reconnect_logs_def is_reconnect_def)
  from single_flight_reconnection [OF h1, of 0] single_flight_reconnection [OF h2, of 3]
    h1 h2 r1 r2 z
  show ?thesis by simp
qed

text \<open>
  C2, as the specification states it, fails: \<open>connectWebSocket\<close> looks at no state
  before it constructs the socket. Called with the channel open, or still connecting,
  it constructs a second socket and stores it in \<open>wsRef\<close>; when that one opens, a
  second \<open>Connected to server\<close> entry is appended.
\<close>

theorem connect_again_counterexample:
  "wsConnected connected_state \<and> sockets connected_state = [ws_url] \<and>
   sockets (connectWebSocket connected_state) = [ws_url, ws_url] \<and>
   wsRef (connectWebSocket connected_state) = Some 1 \<and>
   map message (logs (ws_onopen (connectWebSocket connected_state))) =
     [JStr ''Connected to server'', JStr ''Connected to server''] \<and>
   \<not> wsConnected (booted False) \<and> sockets (booted False) = [ws_url] \<and>
   sockets (connectWebSocket (booted False)) = [ws_url, ws_url]"
  by (simp add: connected_state_eq connectWebSocket_def ws_onopen_def addLog_def booted_def
      mount_def setTimeout_def initial_state_def)

lemma sockets_fire:
  "sockets (fire t s) \<noteq> sockets s \<Longrightarrow> \<exists>d. (t, d, ReconnectCb) \<in> set (timers s)"
proof (cases "find (\<lambda>x. fst x = t) (timers s)")
  case None
  assume "sockets (fire t s) \<noteq> sockets s"
  with None show ?thesis by (simp add: fire_def)
next
  case (Some x)
  assume ne: "sockets (fire t s) \<noteq> sockets s"
  obtain t' d cb where x: "x = (t', d, cb)" by (cases x)
  from Some x have mem: "(t, d, cb) \<in> set (timers s)"
    using find_by_id_Some by fastforce
  from ne Some x have "cb = ReconnectCb"
    by (cases cb) (simp_all add: fire_def fetchBanks_def fetch_def)
  with mem show ?thesis by auto
qed

lemma sockets_handlers:
  "sockets (ws_onopen s) = sockets s"
  "sockets (ws_onmessage fr s) = sockets s"
  "sockets (ws_onerror s) = sockets s"
  "sockets (ws_onclose s) = sockets s"
  "sockets (fetchBanks_resume n r s) = sockets s"
  "sockets (handleStart_resume out s) = sockets s"
  "sockets (fetchResults_resume rr s) = sockets s"
  "sockets (click_start s) = sockets s"
  "sockets (select_bank v s) = sockets s"
  by (simp_all add: handler_defs onmessage_fields Let_def
      split: sum.splits start_outcome.splits results_response.splits
        banks_response.splits option.splits prod.splits)

lemma sockets_step:
  "sockets (step e s) \<noteq> sockets s \<Longrightarrow> \<exists>t d. e = TimerFire t \<and> (t, d, ReconnectCb) \<in> set (timers s)"
proof (cases e)
  case (TimerFire t)
  assume "sockets (step e s) \<noteq> sockets s"
  with TimerFire sockets_fire [of t s] show ?thesis by simp
qed (auto simp: sockets_handlers deliver_def split: if_splits)

text \<open>
  C2, amended: \<open>connectWebSocket\<close> is not idempotent. In any state in which the
  constructor does not throw, a call constructs one more socket and stores it in
  \<open>wsRef\<close>, changing nothing else; it appends no log entry itself, and every open
  event appends one \<open>Connected to server\<close> entry. Within the event loop a socket is
  constructed only when a pending reconnect timer fires.
\<close>

theorem connect_always_constructs:
  "(\<not> ws_ctor_throws s \<longrightarrow>
      connectWebSocket s = s\<lparr>sockets := sockets s @ [ws_url], wsRef := Some (length (sockets s))\<rparr>) \<and>
   logs (connectWebSocket s) = logs s \<and>
   logs (ws_onopen s) = logs s @ [\<lparr>level = JStr ''success'', message = JStr ''Connected to server'',
                                   timestamp = clock s\<rparr>] \<and>
   (sockets (step e s) \<noteq> sockets s \<longrightarrow>
      (\<exists>t d. e = TimerFire t \<and> (t, d, ReconnectCb) \<in> set (timers s)))"
  using sockets_step [of e s] by (simp add: connectWebSocket_def ws_onopen_def addLog_def)

theorem connect_always_constructs_witness:
  "\<not> ws_ctor_throws connected_state \<and>
   connectWebSocket connected_state = connected_state\<lparr>sockets := [ws_url, ws_url], wsRef := Some 1\<rparr> \<and>
   sockets (step (TimerFire 2) closed_state) \<noteq> sockets closed_state \<and>
   (2, 3000, ReconnectCb) \<in> set (timers closed_state)"
  using connect_always_constructs [of connected_state "TimerFire 2"]
    connect_always_constructs [of closed_state "TimerFire 2"]
  by (simp add: connected_state_eq closed_state_eq fire_def connectWebSocket_def)

section \<open>Loading the banks\<close>

lemma calls_distinct: "start_call \<noteq> banks_call" "results_call \<noteq> banks_call"
  by (simp_all add: start_call_def banks_call_def results_call_def)

lemma loader_ok_fields:
  "timers s' = timers s \<Longrightarrow> awaiting s' = awaiting s \<Longrightarrow> requests s' = requests s \<Longrightarrow>
   banks s' = banks s \<Longrightarrow> loader_ok s' = loader_ok s"
  by (simp add: loader_ok_def loader_timers_def loader_waits_def attempts_def)

lemma loader_ok_views:
  "loader_timers s' = loader_timers s \<Longrightarrow> loader_waits s' = loader_waits s \<Longrightarrow>
   attempts s' = attempts s \<Longrightarrow> banks s' = banks s \<Longrightarrow> loader_ok s' = loader_ok s"
  by (simp add: loader_ok_def)

lemma loader_ok_onclose: "loader_ok s \<Longrightarrow> loader_ok (ws_onclose s)"
proof -
  have "loader_ok (ws_onclose s) = loader_ok s"
    by (rule loader_ok_views)
      (simp_all add: ws_onclose_def setTimeout_def addLog_def Let_def loader_timers_def
        loader_waits_def attempts_def is_reconnect_def)
  then show "loader_ok s \<Longrightarrow> loader_ok (ws_onclose s)" by simp
qed

lemma loader_ok_onmessage: "loader_ok s \<Longrightarrow> loader_ok (ws_onmessage fr s)"
proof -
  have "loader_ok (ws_onmessage fr s) = loader_ok s"
    by (rule loader_ok_views)
      (simp_all add: loader_timers_def loader_waits_def attempts_def onmessage_fields)
  then show "loader_ok s \<Longrightarrow> loader_ok (ws_onmessage fr s)" by simp
qed

lemma loader_ok_click: "loader_ok s \<Longrightarrow> loader_ok (click_start s)"
proof -
  have "loader_ok (click_start s) = loader_ok s"
    by (rule loader_ok_views)
      (simp_all add: click_start_def handleStart_def fetch_def addLog_def
        loader_timers_def loader_waits_def attempts_def calls_distinct)
  then show "loader_ok s \<Longrightarrow> loader_ok (click_start s)" by simp
qed

lemma loader_ok_start_response: "loader_ok s \<Longrightarrow> loader_ok (deliver StartK (handleStart_resume out) s)"
proof -
  have "loader_ok (deliver StartK (handleStart_resume out) s) = loader_ok s"
    by (rule loader_ok_views)
      (simp_all add: deliver_def handleStart_resume_def start_try_def addLog_def
        loader_timers_def loader_waits_def attempts_def filter_remove1
        split: start_outcome.splits sum.splits)
  then show "loader_ok s \<Longrightarrow> loader_ok (deliver StartK (handleStart_resume out) s)" by simp
qed

lemma loader_ok_results_response:
  "loader_ok s \<Longrightarrow> loader_ok (deliver ResultsK (fetchResults_resume r) s)"
proof -
  have "loader_ok (deliver ResultsK (fetchResults_resume r) s) = loader_ok s"
    by (rule loader_ok_views)
      (simp_all add: deliver_def fetchResults_resume_def addLog_def
        loader_timers_def loader_waits_def attempts_def filter_remove1
        split: results_response.splits)
  then show "loader_ok s \<Longrightarrow> loader_ok (deliver ResultsK (fetchResults_resume r) s)" by simp
qed


lemma loader_ok_banks_response:
  assumes "loader_ok s"
  shows "loader_ok (deliver (BanksK n) (fetchBanks_resume n r) s)"
proof (cases "BanksK n \<in> set (awaiting s)")
  case False
  with assms show ?thesis by (simp add: deliver_def)
next
  case True
  then have "BanksK n \<in> set (loader_waits s)" by (simp add: loader_waits_def)
  with assms have ph: "n \<le> 3" "loader_timers s = []" "loader_waits s = [BanksK n]"
    "attempts s = Suc n" "banks s = []"
    by (auto simp: loader_ok_def)
  let ?s1 = "s\<lparr>awaiting := remove1 (BanksK n) (awaiting s)\<rparr>"
  have w1: "loader_waits ?s1 = []"
    using ph(3) by (simp add: loader_waits_def filter_remove1)
  have t1: "loader_timers ?s1 = []" using ph(2) by (simp add: loader_timers_def)
  have a1: "attempts ?s1 = Suc n" using ph(4) by (simp add: attempts_def)
  have b1: "banks ?s1 = []" using ph(5) by simp
  have "loader_ok (fetchBanks_resume n r ?s1)"
  proof (cases "n < 3")
    case True
    then have "Suc n \<le> 3" by simp
    with w1 t1 a1 b1 show ?thesis
      by (auto simp: loader_ok_def fetchBanks_resume_def setTimeout_def addLog_def Let_def
          loader_waits_def loader_timers_def attempts_def is_reconnect_def
          split: banks_response.splits option.splits)
  next
    case False
    with ph(1) have "Suc n \<le> 4" by simp
    with False w1 t1 a1 show ?thesis
      by (auto simp: loader_ok_def fetchBanks_resume_def addLog_def
          loader_waits_def loader_timers_def attempts_def
          split: banks_response.splits option.splits)
  qed
  with True show ?thesis by (simp add: deliver_def)
qed

lemma loader_ok_fire:
  assumes "timers_ok s" and "loader_ok s"
  shows "loader_ok (fire t s)"
proof (cases "find (\<lambda>x. fst x = t) (timers s)")
  case None
  with assms(2) show ?thesis by (simp add: fire_def)
next
  case (Some x)
  obtain t' d cb where x: "x = (t', d, cb)" by (cases x)
  from Some x have mem: "(t, d, cb) \<in> set (timers s)" and t': "t' = t"
    using find_by_id_Some by fastforce+
  from assms(1) have dis: "distinct (map fst (timers s))" by (simp add: timers_ok_def)
  let ?s1 = "s\<lparr>timers := filter (\<lambda>x. fst x \<noteq> t) (timers s)\<rparr>"
  note drop = filter_drop_id [OF dis mem, of "\<lambda>x. \<not> is_reconnect x"]
  show ?thesis
  proof (cases cb)
    case ReconnectCb
    with drop have "loader_timers ?s1 = loader_timers s"
      by (simp add: loader_timers_def is_reconnect_def)
    then have "loader_ok (connectWebSocket (?s1\<lparr>reconnectTimeoutRef := None\<rparr>)) = loader_ok s"
      by (intro loader_ok_views)
        (simp_all add: connectWebSocket_def loader_timers_def loader_waits_def attempts_def)
    with assms(2) Some x ReconnectCb show ?thesis by (simp add: fire_def)
  next
    case (FetchBanksCb n)
    with mem have "(t, d, FetchBanksCb n) \<in> set (loader_timers s)"
      by (simp add: loader_timers_def is_reconnect_def)
    with assms(2) have ph: "n \<le> 3" "loader_timers s = [(t, d, FetchBanksCb n)]"
      "loader_waits s = []" "attempts s = n" "banks s = []"
      by (auto simp: loader_ok_def)
    from drop FetchBanksCb ph(2) have t1: "loader_timers ?s1 = []"
      by (simp add: loader_timers_def is_reconnect_def)
    have "loader_ok (fetchBanks n ?s1)"
      using t1 ph
      by (simp add: loader_ok_def fetchBanks_def fetch_def loader_timers_def loader_waits_def
          attempts_def)
    with Some x FetchBanksCb show ?thesis by (simp add: fire_def)
  qed
qed

lemma loader_ok_step:
  assumes "timers_ok s" and "loader_ok s"
  shows "loader_ok (step e s)"
proof (cases e)
  case (TimerFire t)
  with assms show ?thesis by (simp add: loader_ok_fire)
next
  case (SelectBank v)
  have "loader_ok (select_bank v s) = loader_ok s"
    by (rule loader_ok_fields) (simp_all add: select_bank_def)
  with assms(2) SelectBank show ?thesis by simp
next
  case WsOpen
  have "loader_ok (ws_onopen s) = loader_ok s"
    by (rule loader_ok_fields) (simp_all add: ws_onopen_def addLog_def)
  with assms(2) WsOpen show ?thesis by simp
next
  case WsError
  have "loader_ok (ws_onerror s) = loader_ok s"
    by (rule loader_ok_fields) (simp_all add: ws_onerror_def)
  with assms(2) WsError show ?thesis by simp
next
  case (Tick now)
  have "loader_ok (s\<lparr>clock := now\<rparr>) = loader_ok s"
    by (rule loader_ok_fields) simp_all
  with assms(2) Tick show ?thesis by simp
qed (use assms(2) in \<open>simp_all add: loader_ok_onclose loader_ok_onmessage loader_ok_click
      loader_ok_start_response loader_ok_results_response loader_ok_banks_response\<close>)

lemma loader_ok_booted: "loader_ok (booted b)"
  by (simp add: loader_ok_def loader_timers_def loader_waits_def attempts_def is_reconnect_def
      handler_defs Let_def)

lemma loader_ok_run: "timers_ok s \<Longrightarrow> loader_ok s \<Longrightarrow> loader_ok (run evs s)"
  by (induction evs arbitrary: s) (simp_all add: loader_ok_step timers_ok_step)

lemma loader_ok_attempts: "loader_ok s \<Longrightarrow> attempts s \<le> 4"
  by (auto simp: loader_ok_def)

lemma retry_delays_step: "retry_delays_ok s \<Longrightarrow> retry_delays_ok (step e s)"
proof (cases e)
  case (TimerFire t)
  assume "retry_delays_ok s"
  moreover have "scheduled (fire t s) = scheduled s"
    by (simp add: fire_def run_callback_timers split: option.splits prod.splits)
  ultimately show ?thesis using TimerFire by (simp add: retry_delays_ok_def)
next
  case (WsMessage fr)
  assume "retry_delays_ok s"
  with WsMessage show ?thesis by (simp add: retry_delays_ok_def onmessage_fields)
qed (auto simp: retry_delays_ok_def handler_defs Let_def
      split: sum.splits start_outcome.splits results_response.splits
        banks_response.splits option.splits)

lemma retry_delays_run: "retry_delays_ok s \<Longrightarrow> retry_delays_ok (run evs s)"
  by (induction evs arbitrary: s) (simp_all add: retry_delays_step)

lemma retry_delays_booted: "retry_delays_ok (booted b)"
  by (simp add: retry_delays_ok_def handler_defs Let_def)

lemma waiting_booted: "waiting 0 (booted b)"
  by (simp add: waiting_def handler_defs Let_def)

lemma waiting_round:
  assumes "waiting k s"
  shows "next_attempt r s =
           fetchBanks_resume k r
             (s\<lparr>timers := [], requests := replicate (Suc k) banks_call, awaiting := []\<rparr>)"
  using assms
  by (simp add: waiting_def next_attempt_def is_reconnect_def fire_def fetchBanks_def fetch_def
      deliver_def replicate_append_same)

lemma replicate_3_4: "replicate 4 x = replicate 3 x @ [x]"
  by (simp add: eval_nat_numeral)

lemma round_retry:
  assumes "waiting k s" and "k < 3" and "unsuccessful r"
  shows "waiting (Suc k) (next_attempt r s)"
    and "logs (next_attempt r s) =
           (if r = BanksThrows
            then logs s @ [\<lparr>level = JStr ''warning'',
                             message = JStr (''Retrying to fetch banks... ('' @
                                             string_of_nat (Suc k) @ ''/3)''),
                             timestamp = clock s\<rparr>]
            else logs s)"
  using assms(1,2,3)
  by (cases r rule: unsuccessful.cases;
      simp add: waiting_round waiting_def fetchBanks_resume_def setTimeout_def addLog_def Let_def)+

lemma round_give_up:
  assumes "waiting 3 s" and "unsuccessful r"
  shows "next_attempt r s =
           s\<lparr>timers := [], requests := replicate 4 banks_call, awaiting := [],
             logs := logs s @ [\<lparr>level = JStr ''error'',
                                message = JStr (if r = BanksThrows
                                                then ''Failed to fetch banks. Check backend.''
                                                else ''No banks found in config''),
                                timestamp = clock s\<rparr>]\<rparr>"
  using assms
  by (cases r rule: unsuccessful.cases;
      simp add: waiting_round [OF assms(1)] fetchBanks_resume_def addLog_def)

lemma round_success:
  assumes "waiting k s" and "bs \<noteq> []"
  shows "next_attempt (BanksData (Some bs)) s =
           s\<lparr>timers := [], requests := replicate (Suc k) banks_call, awaiting := [],
             banks := bs,
             logs := logs s @ [\<lparr>level = JStr ''success'',
                                message = JStr (''Loaded '' @ string_of_nat (length bs) @ '' bank(s)''),
                                timestamp = clock s\<rparr>]\<rparr>"
  using assms
  by (simp add: waiting_round waiting_def fetchBanks_resume_def addLog_def)

lemma round_over: "timers s = [] \<Longrightarrow> next_attempt r s = s"
  by (simp add: next_attempt_def)

lemma bootstrap_over: "timers s = [] \<Longrightarrow> bootstrap rs s = s"
  by (induction rs) (simp_all add: bootstrap_def round_over)

lemma bootstrap_retries:
  assumes "waiting k s" and "\<forall>r \<in> set rs. unsuccessful r" and "k + length rs \<le> 3"
  shows "waiting (k + length rs) (bootstrap rs s)"
  using assms
proof (induction rs arbitrary: k s)
  case Nil
  then show ?case by (simp add: bootstrap_def)
next
  case (Cons r rs)
  from Cons.prems have "waiting (Suc k) (next_attempt r s)"
    by (intro round_retry(1)) simp_all
  from Cons.IH [OF this] Cons.prems show ?case by (simp add: bootstrap_def)
qed

lemma bootstrap_append: "bootstrap (rs @ rs') s = bootstrap rs' (bootstrap rs s)"
  by (simp add: bootstrap_def)

lemma bootstrap_success:
  assumes "\<forall>r \<in> set rs. unsuccessful r" and "length rs \<le> 3" and "bs \<noteq> []"
  shows "\<exists>s. waiting (length rs) s \<and>
           bootstrap (rs @ [BanksData (Some bs)]) (booted b) =
             s\<lparr>timers := [], requests := replicate (Suc (length rs)) banks_call, awaiting := [],
               banks := bs,
               logs := logs s @ [\<lparr>level = JStr ''success'',
                                  message = JStr (''Loaded '' @ string_of_nat (length bs) @ '' bank(s)''),
                                  timestamp = clock s\<rparr>]\<rparr>"
proof -
  let ?s = "bootstrap rs (booted b)"
  have w: "waiting (length rs) ?s"
    using bootstrap_retries [OF waiting_booted assms(1), of b] assms(2) by simp
  have "bootstrap (rs @ [BanksData (Some bs)]) (booted b) = next_attempt (BanksData (Some bs)) ?s"
    by (simp add: bootstrap_def)
  with w round_success [OF w assms(3)] show ?thesis by auto
qed

lemma bootstrap_give_up:
  assumes "\<forall>r \<in> set rs. unsuccessful r" and "length rs = 3" and "unsuccessful r"
  shows "\<exists>s. waiting 3 s \<and>
           bootstrap (rs @ [r]) (booted b) =
             s\<lparr>timers := [], requests := replicate 4 banks_call, awaiting := [],
               logs := logs s @ [\<lparr>level = JStr ''error'',
                                  message = JStr (if r = BanksThrows
                                                  then ''Failed to fetch banks. Check backend.''
                                                  else ''No banks found in config''),
                                  timestamp = clock s\<rparr>]\<rparr>"
proof -
  let ?s = "bootstrap rs (booted b)"
  have w: "waiting 3 ?s"
    using bootstrap_retries [OF waiting_booted assms(1), of b] assms(2) by simp
  have "bootstrap (rs @ [r]) (booted b) = next_attempt r ?s"
    by (simp add: bootstrap_def)
  with w round_give_up [OF w assms(3)] show ?thesis by auto
qed

text \<open>
  C4: whatever events arrive in whatever order after mounting, at most four requests
  for the bank list are made, and every retry is scheduled with a delay of 2000 ms.
  With the loader's events delivered in order: if up to three attempts are answered
  without a bank (in the case of the claim, three empty lists) and the next one
  with a non-empty list, that list is stored, the last log entry is the success entry
  with its length, one request was made per attempt and the loader has stopped; if
  four attempts are answered without a bank, the stored list stays empty, the last log
  entry is an error entry, four requests were made and the loader has stopped, so that
  further answers change nothing.
\<close>

theorem bounded_bank_loading:
  "attempts (run evs (booted b)) \<le> 4 \<and>
   (\<forall>x \<in> set (scheduled (run evs (booted b))). \<forall>n.
       snd (snd x) = FetchBanksCb (Suc n) \<longrightarrow> fst (snd x) = 2000) \<and>
   ((\<forall>r \<in> set rs. unsuccessful r) \<and> length rs \<le> 3 \<and> bs \<noteq> [] \<longrightarrow>
      (let s' = bootstrap (rs @ [BanksData (Some bs)]) (booted b)
       in banks s' = bs \<and>
          last (logs s') = \<lparr>level = JStr ''success'',
                            message = JStr (''Loaded '' @ string_of_nat (length bs) @ '' bank(s)''),
                            timestamp = clock s'\<rparr> \<and>
          requests s' = replicate (Suc (length rs)) banks_call \<and>
          timers s' = [] \<and> awaiting s' = [])) \<and>
   ((\<forall>r \<in> set rs. unsuccessful r) \<and> length rs = 4 \<longrightarrow>
      (let s' = bootstrap rs (booted b)
       in banks s' = [] \<and>
          level (last (logs s')) = JStr ''error'' \<and>
          message (last (logs s')) =
            JStr (if last rs = BanksThrows then ''Failed to fetch banks. Check backend.''
                  else ''No banks found in config'') \<and>
          requests s' = replicate 4 banks_call \<and>
          timers s' = [] \<and> awaiting s' = [] \<and>
          bootstrap (rs @ rs') (booted b) = s'))"
proof -
  let ?s = "run evs (booted b)"
  have "loader_ok ?s"
    using timers_ok_booted loader_ok_booted by (rule loader_ok_run)
  then have a: "attempts ?s \<le> 4" by (rule loader_ok_attempts)
  have "retry_delays_ok ?s" using retry_delays_booted by (rule retry_delays_run)
  then have d: "\<forall>x \<in> set (scheduled ?s). \<forall>n.
       snd (snd x) = FetchBanksCb (Suc n) \<longrightarrow> fst (snd x) = 2000"
    by (simp add: retry_delays_ok_def)
  have ok: "(\<forall>r \<in> set rs. unsuccessful r) \<and> length rs \<le> 3 \<and> bs \<noteq> [] \<longrightarrow>
      (let s' = bootstrap (rs @ [BanksData (Some bs)]) (booted b)
       in banks s' = bs \<and>
          last (logs s') = \<lparr>level = JStr ''success'',
                            message = JStr (''Loaded '' @ string_of_nat (length bs) @ '' bank(s)''),
                            timestamp = clock s'\<rparr> \<and>
          requests s' = replicate (Suc (length rs)) banks_call \<and>
          timers s' = [] \<and> awaiting s' = [])"
  proof
    assume h: "(\<forall>r \<in> set rs. unsuccessful r) \<and> length rs \<le> 3 \<and> bs \<noteq> []"
    from h bootstrap_success [of rs bs b] obtain s where
      "bootstrap (rs @ [BanksData (Some bs)]) (booted b) =
             s\<lparr>timers := [], requests := replicate (Suc (length rs)) banks_call, awaiting := [],
               banks := bs,
               logs := logs s @ [\<lparr>level = JStr ''success'',
                                  message = JStr (''Loaded '' @ string_of_nat (length bs) @ '' bank(s)''),
                                  timestamp = clock s\<rparr>]\<rparr>"
      by blast
    then show "let s' = bootstrap (rs @ [BanksData (Some bs)]) (booted b)
       in banks s' = bs \<and>
          last (logs s') = \<lparr>level = JStr ''success'',
                            message = JStr (''Loaded '' @ string_of_nat (length bs) @ '' bank(s)''),
                            timestamp = clock s'\<rparr> \<and>
          requests s' = replicate (Suc (length rs)) banks_call \<and>
          timers s' = [] \<and> awaiting s' = []"
      by simp
  qed
  have ko: "(\<forall>r \<in> set rs. unsuccessful r) \<and> length rs = 4 \<longrightarrow>
      (let s' = bootstrap rs (booted b)
       in banks s' = [] \<and>
          level (last (logs s')) = JStr ''error'' \<and>
          message (last (logs s')) =
            JStr (if last rs = BanksThrows then ''Failed to fetch banks. Check backend.''
                  else ''No banks found in config'') \<and>
          requests s' = replicate 4 banks_call \<and>
          timers s' = [] \<and> awaiting s' = [] \<and>
          bootstrap (rs @ rs') (booted b) = s')"
  proof
    assume h: "(\<forall>r \<in> set rs. unsuccessful r) \<and> length rs = 4"
    then have ne: "rs \<noteq> []" by auto
    then have split: "rs = butlast rs @ [last rs]" by simp
    from h ne have h3: "\<forall>r \<in> set (butlast rs). unsuccessful r" "length (butlast rs) = 3"
      "unsuccessful (last rs)"
      by (auto dest: in_set_butlastD)
    from bootstrap_give_up [OF h3, of b] split obtain s where w: "waiting 3 s" and
      e: "bootstrap rs (booted b) =
             s\<lparr>timers := [], requests := replicate 4 banks_call, awaiting := [],
               logs := logs s @ [\<lparr>level = JStr ''error'',
                                  message = JStr (if last rs = BanksThrows
                                                  then ''Failed to fetch banks. Check backend.''
                                                  else ''No banks found in config''),
                                  timestamp = clock s\<rparr>]\<rparr>"
      by auto
    have "timers (bootstrap rs (booted b)) = []" by (simp add: e)
    then have "bootstrap (rs @ rs') (booted b) = bootstrap rs (booted b)"
      by (simp add: bootstrap_append bootstrap_over)
    with w e show "let s' = bootstrap rs (booted b)
       in banks s' = [] \<and>
          level (last (logs s')) = JStr ''error'' \<and>
          message (last (logs s')) =
            JStr (if last rs = BanksThrows then ''Failed to fetch banks. Check backend.''
                  else ''No banks found in config'') \<and>
          requests s' = replicate 4 banks_call \<and>
          timers s' = [] \<and> awaiting s' = [] \<and>
          bootstrap (rs @ rs') (booted b) = s'"
      by (simp add: waiting_def)
  qed
  from a d ok ko show ?thesis by blast
qed

theorem bounded_bank_loading_witness:
  "attempts (run [TimerFire 1, BanksResponse 0 BanksThrows, TimerFire 2] (booted False)) \<le> 4 \<and>
   list_all unsuccessful empty3 \<and> length empty3 \<le> 3 \<and> [bank_a] \<noteq> [] \<and>
   banks (bootstrap (empty3 @ [BanksData (Some [bank_a])]) (booted False)) = [bank_a] \<and>
   level (last (logs (bootstrap (empty3 @ [BanksData (Some [bank_a])]) (booted False)))) = JStr ''success'' \<and>
   message (last (logs (bootstrap (empty3 @ [BanksData (Some [bank_a])]) (booted False)))) =
     JStr ''Loaded 1 bank(s)'' \<and>
   requests (bootstrap (empty3 @ [BanksData (Some [bank_a])]) (booted False)) =
     [banks_call, banks_call, banks_call, banks_call] \<and>
   list_all unsuccessful failing4 \<and> length failing4 = 4 \<and>
   banks (bootstrap failing4 (booted False)) = [] \<and>
   level (last (logs (bootstrap failing4 (booted False)))) = JStr ''error'' \<and>
   message (last (logs (bootstrap failing4 (booted False)))) =
     JStr ''Failed to fetch banks. Check backend.'' \<and>
   requests (bootstrap failing4 (booted False)) = [banks_call, banks_call, banks_call, banks_call]"
proof -
  have h3: "(\<forall>r \<in> set empty3. unsuccessful r) \<and> length empty3 \<le> 3 \<and> [bank_a] \<noteq> []"
    by (simp add: empty3_def)
  have len3: "length empty3 = 3" by (simp add: empty3_def)
  have h4: "(\<forall>r \<in> set failing4. unsuccessful r) \<and> length failing4 = 4"
    by (simp add: failing4_def)
  have l4: "last failing4 = BanksThrows" by (simp add: failing4_def)
  have r4: "replicate 4 banks_call = [banks_call, banks_call, banks_call, banks_call]"
    by (simp add: eval_nat_numeral)
  note t3 = bounded_bank_loading
    [of "[TimerFire 1, BanksResponse 0 BanksThrows, TimerFire 2]" False empty3 "[bank_a]" "[]"]
  note t4 = bounded_bank_loading
    [of "[TimerFire 1, BanksResponse 0 BanksThrows, TimerFire 2]" False failing4 "[bank_a]" "[]"]
  from t3 h3 have
    "attempts (run [TimerFire 1, BanksResponse 0 BanksThrows, TimerFire 2] (booted False)) \<le> 4"
    "banks (bootstrap (empty3 @ [BanksData (Some [bank_a])]) (booted False)) = [bank_a]"
    "level (last (logs (bootstrap (empty3 @ [BanksData (Some [bank_a])]) (booted False)))) = JStr ''success''"
    "message (last (logs (bootstrap (empty3 @ [BanksData (Some [bank_a])]) (booted False)))) =
       JStr ''Loaded 1 bank(s)''"
    "requests (bootstrap (empty3 @ [BanksData (Some [bank_a])]) (booted False)) =
       [banks_call, banks_call, banks_call, banks_call]"
    by (simp_all add: Let_def string_of_nat.simps len3 r4)
  moreover from t4 h4 l4 have
    "banks (bootstrap failing4 (booted False)) = []"
    "level (last (logs (bootstrap failing4 (booted False)))) = JStr ''error''"
    "message (last (logs (bootstrap failing4 (booted False)))) =
       JStr ''Failed to fetch banks. Check backend.''"
    "requests (bootstrap failing4 (booted False)) = [banks_call, banks_call, banks_call, banks_call]"
    by (simp_all add: Let_def r4)
  ultimately show ?thesis using h3 h4 by (simp add: list_all_iff)
qed

section \<open>The selection and the bank list\<close>

lemma selection_ok_fields:
  "selectedBank s' = selectedBank s \<Longrightarrow> banks s' = banks s \<Longrightarrow> selection_ok s' = selection_ok s"
  by (simp add: selection_ok_def)

lemma selection_fields_callback:
  "selectedBank (run_callback cb s) = selectedBank s \<and> banks (run_callback cb s) = banks s"
  by (cases cb) (simp_all add: connectWebSocket_def fetchBanks_def fetch_def)

lemma selection_fields_handlers:
  "selectedBank (ws_onopen s) = selectedBank s \<and> banks (ws_onopen s) = banks s"
  "selectedBank (ws_onmessage fr s) = selectedBank s \<and> banks (ws_onmessage fr s) = banks s"
  "selectedBank (ws_onerror s) = selectedBank s \<and> banks (ws_onerror s) = banks s"
  "selectedBank (ws_onclose s) = selectedBank s \<and> banks (ws_onclose s) = banks s"
  "selectedBank (fire t s) = selectedBank s \<and> banks (fire t s) = banks s"
  "selectedBank (handleStart_resume out s) = selectedBank s \<and> banks (handleStart_resume out s) = banks s"
  "selectedBank (fetchResults_resume rr s) = selectedBank s \<and> banks (fetchResults_resume rr s) = banks s"
  "selectedBank (click_start s) = selectedBank s \<and> banks (click_start s) = banks s"
  by (simp_all add: handler_defs onmessage_fields Let_def selection_fields_callback
      split: sum.splits start_outcome.splits results_response.splits
        option.splits prod.splits)

lemma selection_ok_banks_response:
  assumes "loader_ok s" and "selection_ok s"
  shows "selection_ok (deliver (BanksK n) (fetchBanks_resume n r) s)"
proof (cases "BanksK n \<in> set (awaiting s)")
  case False
  with assms(2) show ?thesis by (simp add: deliver_def)
next
  case True
  then have "BanksK n \<in> set (loader_waits s)" by (simp add: loader_waits_def)
  with assms(1) have "banks s = []" by (auto simp: loader_ok_def)
  with assms(2) have "selectedBank s = []" by (simp add: selection_ok_def)
  then show ?thesis
    by (simp add: deliver_def selection_ok_def fetchBanks_resume_def setTimeout_def addLog_def
        Let_def split: banks_response.splits option.splits)
qed

lemma selection_ok_step:
  assumes "loader_ok s" and "selection_ok s"
  shows "selection_ok (step e s)"
proof (cases e)
  case (BanksResponse n r)
  with assms show ?thesis by (simp add: selection_ok_banks_response)
next
  case (SelectBank v)
  with assms(2) show ?thesis by (auto simp: selection_ok_def select_bank_def)
qed (use assms(2) in \<open>auto simp: selection_ok_def selection_fields_handlers deliver_def\<close>)

lemma selection_ok_run:
  "timers_ok s \<Longrightarrow> loader_ok s \<Longrightarrow> selection_ok s \<Longrightarrow> selection_ok (run evs s)"
  by (induction evs arbitrary: s) (simp_all add: selection_ok_step loader_ok_step timers_ok_step)

lemma selection_ok_booted: "selection_ok (booted b)"
  by (simp add: selection_ok_def handler_defs Let_def)

lemma selected_state_eq:
  "selected_state =
     \<lparr>banks = [bank_a], selectedBank = ''BANK_A'', isRunning = False,
      logs = [\<lparr>level = JStr ''success'', message = JStr ''Loaded 1 bank(s)'', timestamp = []\<rparr>,
              \<lparr>level = JStr ''success'', message = JStr ''Connected to server'', timestamp = []\<rparr>],
      results = [], showResults = False, wsConnected = True, wsRef = Some 0,
      reconnectTimeoutRef = None, clock = [], ws_ctor_throws = False, sockets = [ws_url],
      requests = [banks_call], awaiting = [], timers = [],
      scheduled = [(1, 1000, FetchBanksCb 0)]\<rparr>"
  by (simp add: selected_state_def handler_defs bank_a_def string_of_nat.simps Let_def)

text \<open>
  C5: in every state the event loop reaches after mounting, a start goes ahead only
  for a selection that is the id of a stored bank. Whenever \<open>handleStart\<close> changes
  anything, whenever it issues a request, and whenever a click on START changes
  anything, the selected id is among the ids of \<open>banks\<close>. The check is not made by
  \<open>handleStart\<close>, which tests the selection for emptiness only; it is kept by the
  selector, which offers the ids of the stored banks and the empty entry and nothing
  else, and by the loader, which stores a list once.
\<close>

theorem start_only_for_loaded_id:
  assumes "s = run evs (booted b)"
  shows "(handleStart s \<noteq> s \<longrightarrow> selectedBank s \<in> set (map bank_id (banks s))) \<and>
         (requests (handleStart s) \<noteq> requests s \<longrightarrow>
            selectedBank s \<in> set (map bank_id (banks s))) \<and>
         (step ClickStart s \<noteq> s \<longrightarrow> selectedBank s \<in> set (map bank_id (banks s)))"
proof -
  have "selection_ok s" unfolding assms
    using timers_ok_booted loader_ok_booted selection_ok_booted by (rule selection_ok_run)
  then have sel: "selectedBank s \<noteq> [] \<longrightarrow> selectedBank s \<in> set (map bank_id (banks s))"
    by (auto simp: selection_ok_def)
  have "selectedBank s = [] \<longrightarrow> handleStart s = s \<and> step ClickStart s = s"
    by (simp add: handleStart_def click_start_def start_disabled_def)
  with sel show ?thesis by metis
qed

theorem start_only_for_loaded_id_witness:
  "selected_state =
     run [TimerFire 1, BanksResponse 0 (BanksData (Some [bank_a])), WsOpen, SelectBank ''BANK_A'']
       (booted False) \<and>
   handleStart selected_state \<noteq> selected_state \<and>
   requests (handleStart selected_state) \<noteq> requests selected_state \<and>
   step ClickStart selected_state \<noteq> selected_state \<and>
   selectedBank selected_state \<in> set (map bank_id (banks selected_state))"
proof -
  have h: "selected_state =
     run [TimerFire 1, BanksResponse 0 (BanksData (Some [bank_a])), WsOpen, SelectBank ''BANK_A'']
       (booted False)"
    by (simp add: selected_state_def)
  have ch: "requests (handleStart selected_state) \<noteq> requests selected_state"
    by (simp add: selected_state_eq handleStart_def fetch_def addLog_def)
  then have "handleStart selected_state \<noteq> selected_state" by auto
  moreover have "step ClickStart selected_state = handleStart selected_state"
    by (simp add: selected_state_eq click_start_def start_disabled_def)
  ultimately show ?thesis using start_only_for_loaded_id [OF h] h ch by simp
qed

end
